theory Spec2Isabelle
  imports Main "HOL-Library.Word"
begin

unbundle bit_operations_syntax

section \<open>Machine types of tools/uhyve.c\<close>

text \<open>
  The monitor is C for x86-64 Linux: \<open>int\<close> is 32 bits and signed, \<open>size_t\<close>,
  \<open>uint64_t\<close> and pointers are 64 bits, \<open>ssize_t\<close> and \<open>off_t\<close> are 64 bits
  and signed. Signed values are words read through \<open>sint\<close> and compared with
  \<open><s\<close>. Multi-byte values lie in memory with the low byte first.
\<close>

type_synonym u8 = "8 word"
type_synonym u16 = "16 word"
type_synonym u32 = "32 word"
type_synonym u64 = "64 word"
type_synonym s32 = "32 word"
type_synonym s64 = "64 word"
type_synonym pthread_t = "64 word"

section \<open>The host and the state of the monitor\<close>

text \<open>
  The registers of \<open>struct kvm_sregs\<close> and \<open>struct kvm_regs\<close> (linux/kvm.h) that the
  monitor assigns. KVM_GET_SREGS fills the others and KVM_SET_SREGS hands them back
  untouched.
\<close>

record kvm_segment =
  seg_base :: u64
  seg_limit :: u32
  seg_selector :: u16
  seg_type :: u8
  seg_present :: u8
  seg_dpl :: u8
  seg_db :: u8
  seg_s :: u8
  seg_l :: u8
  seg_g :: u8
  seg_avl :: u8

record kvm_sregs =
  sregs_cs :: kvm_segment
  sregs_ds :: kvm_segment
  sregs_es :: kvm_segment
  sregs_fs :: kvm_segment
  sregs_gs :: kvm_segment
  sregs_ss :: kvm_segment
  gdt_base :: u64
  gdt_limit :: u16
  cr0 :: u64
  cr3 :: u64
  cr4 :: u64
  efer :: u64

record kvm_regs =
  rip :: u64
  rax :: u64
  rbx :: u64
  rdx :: u64
  rflags :: u64

record kvm_cpuid_entry2 =
  cpuid_function :: u32
  cpuid_eax :: u32
  cpuid_ebx :: u32
  cpuid_ecx :: u32
  cpuid_edx :: u32

record kvm_userspace_memory_region =
  region_slot :: u32
  region_guest_phys_addr :: u64
  region_memory_size :: u64

text \<open>The requests that the monitor sends through \<open>kvm_ioctl\<close>, with their arguments.\<close>

datatype kvm_cmd =
    KVM_GET_API_VERSION
  | KVM_CREATE_VM
  | KVM_SET_USER_MEMORY_REGION kvm_userspace_memory_region
  | KVM_CREATE_IRQCHIP
  | KVM_CREATE_VCPU u32
  | KVM_GET_SREGS
  | KVM_SET_SREGS kvm_sregs
  | KVM_SET_REGS kvm_regs
  | KVM_GET_VCPU_MMAP_SIZE
  | KVM_GET_SUPPORTED_CPUID
  | KVM_SET_CPUID2 "kvm_cpuid_entry2 list"

text \<open>
  The calls that leave the monitor, in the order \<open>calls\<close> records them. The
  answers come from the \<open>platform\<close>.
\<close>

datatype host_call =
    HostSignal s32
  | HostAtexit
  | HostOpen string
  | HostClose s32
  | HostCloseFile
  | HostRead s32 u64 u64
  | HostIoctl kvm_cmd
  | HostMmap u64
  | HostMmapRun
  | HostPerror string
  | HostStderr string
  | HostPuts string
  | HostPrintfString nat
  | HostFree
  | PthreadKill pthread_t s32
  | PthreadJoin pthread_t

text \<open>
  What surrounds the monitor: the environment variables, the answers of the host's
  system calls, the bytes that fresh stack and heap buffers hold before they are
  written, and the two macros of uhyve-cpu.h that \<open>setup_system_gdt\<close> uses
  (uhyve-cpu.h is not among the sources, so \<open>GDT_ENTRY\<close> and
  \<open>GDT_TO_KVM_SEGMENT\<close> are taken as given). \<open>open_file\<close> gives the bytes of
  the file at a path, or \<open>None\<close> when \<open>open\<close> fails; \<open>get_cpufreq\<close> is the
  value that the function of that name reads from the host's files.
\<close>

record platform =
  getenv :: "string \<Rightarrow> string option"
  open_kvm :: s32
  ioctl_ret :: "kvm_cmd \<Rightarrow> s32"
  host_sregs :: kvm_sregs
  mmap_guest :: bool
  mmap_run :: bool
  sizeof_kvm_run :: nat
  supported_cpuid :: "kvm_cpuid_entry2 list"
  open_file :: "string \<Rightarrow> u8 list option"
  malloc_ok :: "nat \<Rightarrow> bool"
  indeterminate :: "nat \<Rightarrow> u8"
  get_cpufreq :: u32
  GDT_ENTRY :: "u64 \<Rightarrow> u64 \<Rightarrow> u64 \<Rightarrow> u64"
  GDT_TO_KVM_SEGMENT :: "u64 \<Rightarrow> nat \<Rightarrow> kvm_segment"

text \<open>
  Guest memory is the mapping that \<open>guest_mem\<close> points to, a byte for every offset
  below \<open>guest_size\<close>. Pointers into it (\<open>klog\<close>, \<open>mboot\<close>) are kept as offsets
  from \<open>guest_mem\<close>, with \<open>None\<close> for \<open>NULL\<close>.
\<close>

type_synonym memory = "nat \<Rightarrow> u8"

text \<open>
  The file-scope variables of uhyve.c, the \<open>static sregs\<close> of \<open>setup_system\<close>, the
  thread-local \<open>vcpufd\<close> of the running thread, and the calls made so far.
\<close>

record monitor =
  ncores :: u32
  guest_mem :: memory
  klog :: "nat option"
  mboot :: "nat option"
  guest_size :: u64
  elf_entry :: u64
  vcpu_threads :: "(nat \<Rightarrow> pthread_t) option"
  kvm :: s32
  vmfd :: s32
  netfd :: s32
  vcpufd :: s32
  sregs :: kvm_sregs
  calls :: "host_call list"

definition emit :: "host_call list \<Rightarrow> monitor \<Rightarrow> monitor" where
  "emit cs m = m\<lparr>calls := calls m @ cs\<rparr>"

text \<open>
  How a function of the monitor ends: it returns a value, the process exits with a
  status (\<open>exit\<close>, \<open>err\<close>), an \<open>assert\<close> fails, an access falls outside the
  memory the monitor owns (undefined behaviour in C, where the model stops), or
  the thread waits for the guest.
\<close>

datatype 'a run = Returns 'a | Exits s32 | AssertFailed | Faults | Waits

definition and_then :: "'a run \<times> monitor \<Rightarrow> ('a \<Rightarrow> monitor \<Rightarrow> 'b run \<times> monitor) \<Rightarrow> 'b run \<times> monitor" where
  "and_then x f =
     (case x of
        (Returns a, m) \<Rightarrow> f a m
      | (Exits s, m) \<Rightarrow> (Exits s, m)
      | (AssertFailed, m) \<Rightarrow> (AssertFailed, m)
      | (Faults, m) \<Rightarrow> (Faults, m)
      | (Waits, m) \<Rightarrow> (Waits, m))"

definition EXIT_FAILURE :: s32 where
  "EXIT_FAILURE = 1"

text \<open>
  The macro \<open>kvm_ioctl\<close>: the result of \<open>ioctl\<close>, or \<open>err(1, ...)\<close> when it is -1.
\<close>

definition kvm_ioctl :: "platform \<Rightarrow> kvm_cmd \<Rightarrow> monitor \<Rightarrow> s32 run \<times> monitor" where
  "kvm_ioctl host cmd m =
     (let ret = ioctl_ret host cmd; m' = emit [HostIoctl cmd] m
      in if ret = - 1 then (Exits 1, m') else (Returns ret, m'))"

section \<open>memparse\<close>

text \<open>
  \<open>strtoull(ptr, &endptr, 0)\<close> of the C library, after ISO C: white space, an
  optional sign, then with base 0 a hexadecimal number after \<open>0x\<close>, an octal one
  after \<open>0\<close>, a decimal one otherwise. The result is the value and the rest of
  the string (\<open>endptr\<close>); without any digit the value is 0 and \<open>endptr\<close> is
  \<open>ptr\<close>; a value beyond \<open>ULLONG_MAX\<close> gives \<open>ULLONG_MAX\<close>; a minus sign negates
  in 64 bits.
\<close>

definition isspace :: "char \<Rightarrow> bool" where
  "isspace c \<longleftrightarrow> c \<in> set [CHR '' '', CHR 0x09, CHR 0x0A, CHR 0x0B, CHR 0x0C, CHR 0x0D]"

definition digit_value :: "char \<Rightarrow> nat option" where
  "digit_value c =
     (let n = (of_char c :: nat)
      in if 48 \<le> n \<and> n \<le> 57 then Some (n - 48)
         else if 97 \<le> n \<and> n \<le> 122 then Some (n - 87)
         else if 65 \<le> n \<and> n \<le> 90 then Some (n - 55)
         else None)"

definition is_digit :: "nat \<Rightarrow> char \<Rightarrow> bool" where
  "is_digit base c = (case digit_value c of None \<Rightarrow> False | Some d \<Rightarrow> d < base)"

fun scan_digits :: "nat \<Rightarrow> nat \<Rightarrow> string \<Rightarrow> nat \<times> string" where
  "scan_digits base acc [] = (acc, [])"
| "scan_digits base acc (c # cs) =
     (if is_digit base c then scan_digits base (acc * base + the (digit_value c)) cs
      else (acc, c # cs))"

definition ULLONG_MAX :: nat where
  "ULLONG_MAX = 2 ^ 64 - 1"

definition strtoull :: "string \<Rightarrow> u64 \<times> string" where
  "strtoull nptr =
     (let s1 = dropWhile isspace nptr;
          neg = (s1 \<noteq> [] \<and> hd s1 = CHR ''-'');
          s2 = (if s1 \<noteq> [] \<and> (hd s1 = CHR ''-'' \<or> hd s1 = CHR ''+'') then tl s1 else s1);
          hex = (case s2 of
                   c0 # c1 # c2 # _ \<Rightarrow>
                     c0 = CHR ''0'' \<and> (c1 = CHR ''x'' \<or> c1 = CHR ''X'') \<and> is_digit 16 c2
                 | _ \<Rightarrow> False);
          base = (if hex then 16 else if s2 \<noteq> [] \<and> hd s2 = CHR ''0'' then 8 else 10);
          s3 = (if hex then drop 2 s2 else s2);
          (v, endptr) = scan_digits base 0 s3
      in if length endptr = length s3 then (0, nptr)
         else if ULLONG_MAX < v then (- 1, endptr)
         else if neg then (- of_nat v, endptr)
         else (of_nat v, endptr))"

text \<open>\<open>*endptr\<close>: the character a string starts with, the terminating NUL at its end.\<close>

definition deref :: "string \<Rightarrow> char" where
  "deref p = (case p of [] \<Rightarrow> CHR 0x00 | c # _ \<Rightarrow> c)"

text \<open>
  The labels of the \<open>switch\<close>, from the bottom: control entering at a label
  shifts and falls through every label below it.
\<close>

definition case_K :: "u64 \<Rightarrow> u64" where
  "case_K ret = push_bit 10 ret"

definition case_M :: "u64 \<Rightarrow> u64" where
  "case_M ret = case_K (push_bit 10 ret)"

definition case_G :: "u64 \<Rightarrow> u64" where
  "case_G ret = case_M (push_bit 10 ret)"

definition case_T :: "u64 \<Rightarrow> u64" where
  "case_T ret = case_G (push_bit 10 ret)"

definition case_P :: "u64 \<Rightarrow> u64" where
  "case_P ret = case_T (push_bit 10 ret)"

definition case_E :: "u64 \<Rightarrow> u64" where
  "case_E ret = case_P (push_bit 10 ret)"

definition memparse :: "string \<Rightarrow> u64" where
  "memparse ptr =
     (let (ret, endptr) = strtoull ptr; c = deref endptr
      in if c = CHR ''E'' \<or> c = CHR ''e'' then case_E ret
         else if c = CHR ''P'' \<or> c = CHR ''p'' then case_P ret
         else if c = CHR ''T'' \<or> c = CHR ''t'' then case_T ret
         else if c = CHR ''G'' \<or> c = CHR ''g'' then case_G ret
         else if c = CHR ''M'' \<or> c = CHR ''m'' then case_M ret
         else if c = CHR ''K'' \<or> c = CHR ''k'' then case_K ret
         else ret)"

section \<open>uhyve_exit\<close>

definition SIGTERM :: s32 where
  "SIGTERM = 15"

text \<open>
  The body of the \<open>for\<close> loop over \<open>vcpu_threads\<close>, for the index \<open>i\<close>.
\<close>

definition kill_and_join :: "(nat \<Rightarrow> pthread_t) \<Rightarrow> pthread_t \<Rightarrow> nat \<Rightarrow> host_call list" where
  "kill_and_join threads self i =
     (if threads i \<noteq> self then [PthreadKill (threads i) SIGTERM, PthreadJoin (threads i)] else [])"

text \<open>
  The exit handler, run by the thread \<open>self\<close> (\<open>pthread_self()\<close>), in its three
  parts. First \<open>if (vcpu_threads) { ... }\<close>: the loop and \<open>free\<close>, which leaves
  the pointer as it is.
\<close>

definition stop_threads :: "pthread_t \<Rightarrow> monitor \<Rightarrow> monitor" where
  "stop_threads self m =
     (case vcpu_threads m of
        None \<Rightarrow> m
      | Some threads \<Rightarrow>
          emit (concat (map (kill_and_join threads self) [0..<unat (ncores m)]) @ [HostFree]) m)"

text \<open>
  \<open>if (klog && str && (strcmp(str, "0") != 0))\<close> with \<open>str\<close> the value of
  \<open>HERMIT_VERBOSE\<close>.
\<close>

definition dump_klog :: "platform \<Rightarrow> monitor \<Rightarrow> monitor" where
  "dump_klog host m =
     (let str = getenv host ''HERMIT_VERBOSE''
      in case klog m of
           None \<Rightarrow> m
         | Some k \<Rightarrow>
             if str \<noteq> None \<and> str \<noteq> Some ''0''
             then emit [HostPuts ''\<newline>Dump kernel log:'', HostPuts ''================\<newline>'',
                        HostPrintfString k] m
             else m)"

text \<open>Each descriptor is closed unless it is -1, and set to -1.\<close>

definition close_fds :: "monitor \<Rightarrow> monitor" where
  "close_fds m =
     (let m1 = (if vcpufd m \<noteq> - 1 then emit [HostClose (vcpufd m)] m else m)\<lparr>vcpufd := - 1\<rparr>;
          m2 = (if vmfd m1 \<noteq> - 1 then emit [HostClose (vmfd m1)] m1 else m1)\<lparr>vmfd := - 1\<rparr>;
          m3 = (if kvm m2 \<noteq> - 1 then emit [HostClose (kvm m2)] m2 else m2)\<lparr>kvm := - 1\<rparr>
      in m3)"

definition uhyve_exit :: "platform \<Rightarrow> pthread_t \<Rightarrow> monitor \<Rightarrow> monitor" where
  "uhyve_exit host self m = close_fds (dump_klog host (stop_threads self m))"

section \<open>Guest memory\<close>

definition memset :: "memory \<Rightarrow> nat \<Rightarrow> u8 \<Rightarrow> nat \<Rightarrow> memory" where
  "memset mem s c n = (\<lambda>a. if s \<le> a \<and> a < s + n then c else mem a)"

definition store_bytes :: "memory \<Rightarrow> nat \<Rightarrow> u8 list \<Rightarrow> memory" where
  "store_bytes mem s bs = (\<lambda>a. if s \<le> a \<and> a < s + length bs then bs ! (a - s) else mem a)"

definition load_bytes :: "memory \<Rightarrow> nat \<Rightarrow> nat \<Rightarrow> u8 list" where
  "load_bytes mem s n = map mem [s..<s + n]"

text \<open>The \<open>k\<close> low bytes of a number, low byte first, and the number that bytes spell.\<close>

definition le_bytes :: "nat \<Rightarrow> nat \<Rightarrow> u8 list" where
  "le_bytes k v = map (\<lambda>i. of_nat (v div 256 ^ i)) [0..<k]"

fun le_value :: "u8 list \<Rightarrow> nat" where
  "le_value [] = 0"
| "le_value (b # bs) = unat b + 256 * le_value bs"

definition load_u32 :: "memory \<Rightarrow> nat \<Rightarrow> u32" where
  "load_u32 mem a = of_nat (le_value (load_bytes mem a 4))"

definition load_u64 :: "memory \<Rightarrow> nat \<Rightarrow> u64" where
  "load_u64 mem a = of_nat (le_value (load_bytes mem a 8))"

text \<open>
  An access of \<open>n\<close> bytes at offset \<open>s\<close> stays in the mapping when it ends at or
  below \<open>guest_size\<close>; an access of no bytes touches nothing. The code checks no
  bounds: an access outside the mapping is where the model stops (\<open>None\<close>,
  \<open>Faults\<close>).
\<close>

definition in_guest :: "monitor \<Rightarrow> nat \<Rightarrow> nat \<Rightarrow> bool" where
  "in_guest m s n \<longleftrightarrow> n = 0 \<or> s + n \<le> unat (guest_size m)"

definition put_bytes :: "nat \<Rightarrow> u8 list \<Rightarrow> monitor \<Rightarrow> monitor option" where
  "put_bytes a bs m =
     (if in_guest m a (length bs) then Some (m\<lparr>guest_mem := store_bytes (guest_mem m) a bs\<rparr>)
      else None)"

definition put_u32 :: "nat \<Rightarrow> u32 \<Rightarrow> monitor \<Rightarrow> monitor option" where
  "put_u32 a w = put_bytes a (le_bytes 4 (unat w))"

definition put_u64 :: "nat \<Rightarrow> u64 \<Rightarrow> monitor \<Rightarrow> monitor option" where
  "put_u64 a w = put_bytes a (le_bytes 8 (unat w))"

definition zero_fill :: "nat \<Rightarrow> nat \<Rightarrow> monitor \<Rightarrow> monitor option" where
  "zero_fill a n m =
     (if in_guest m a n then Some (m\<lparr>guest_mem := memset (guest_mem m) a 0 n\<rparr>) else None)"

section \<open>pread_in_full\<close>

definition E2BIG :: int where
  "E2BIG = 7"

definition EAGAIN :: int where
  "EAGAIN = 11"

definition EINVAL :: int where
  "EINVAL = 22"

definition SSIZE_MAX :: nat where
  "SSIZE_MAX = 2 ^ 63 - 1"

text \<open>
  \<open>pread(2)\<close> on a regular file with the given bytes: the bytes from \<open>offset\<close> on, at
  most \<open>count\<close> of them, or \<open>EINVAL\<close> for a negative offset. The result is \<open>Inl\<close>
  of the error number where the call returns -1, and the bytes read otherwise.
  The offset is an \<open>int\<close>: it never exceeds the size of the file.
\<close>

definition pread :: "u8 list \<Rightarrow> nat \<Rightarrow> int \<Rightarrow> int + u8 list" where
  "pread file count offset =
     (if offset < 0 then Inl EINVAL else Inr (take count (drop (nat offset) file)))"

text \<open>
  The \<open>while\<close> loop of \<open>pread_in_full\<close>; \<open>buf\<close> holds the \<open>total\<close> bytes placed at the
  destination so far. A \<open>pread\<close> of a regular file is not interrupted, so the
  \<open>EINTR\<close> branch is never taken.
\<close>

function pread_loop :: "u8 list \<Rightarrow> nat \<Rightarrow> int \<Rightarrow> u8 list \<Rightarrow> int + u8 list" where
  "pread_loop file count offset buf =
     (if 0 < count
      then (case pread file count offset of
              Inl e \<Rightarrow> Inl e
            | Inr bs \<Rightarrow>
                if bs = [] then Inr buf
                else pread_loop file (count - length bs) (offset + int (length bs)) (buf @ bs))
      else Inr buf)"
  by pat_completeness auto
termination
  by (relation "measure (\<lambda>(file, count, offset, buf). count)") auto

declare pread_loop.simps [simp del]

definition pread_in_full :: "u8 list \<Rightarrow> nat \<Rightarrow> int \<Rightarrow> int + u8 list" where
  "pread_in_full file count offset =
     (if SSIZE_MAX < count then Inl E2BIG else pread_loop file count offset [])"

section \<open>load_kernel\<close>

record Elf64_Ehdr =
  e_ident :: "u8 list"
  e_type :: u16
  e_machine :: u16
  e_version :: u32
  e_entry :: u64
  e_phoff :: u64
  e_shoff :: u64
  e_flags :: u32
  e_ehsize :: u16
  e_phentsize :: u16
  e_phnum :: u16
  e_shentsize :: u16
  e_shnum :: u16
  e_shstrndx :: u16

record Elf64_Phdr =
  p_type :: u32
  p_flags :: u32
  p_offset :: u64
  p_vaddr :: u64
  p_paddr :: u64
  p_filesz :: u64
  p_memsz :: u64
  p_align :: u64

text \<open>
  The two structures as they lie in a buffer (elf.h, x86-64): 64 bytes and 56
  bytes, fields in the order of the records. \<open>field buf off n\<close> is the number in
  the \<open>n\<close> bytes at \<open>off\<close>.
\<close>

definition field :: "u8 list \<Rightarrow> nat \<Rightarrow> nat \<Rightarrow> nat" where
  "field buf off n = le_value (take n (drop off buf))"

definition decode_ehdr :: "u8 list \<Rightarrow> Elf64_Ehdr" where
  "decode_ehdr buf =
     \<lparr>e_ident = take 16 buf,
      e_type = of_nat (field buf 16 2),
      e_machine = of_nat (field buf 18 2),
      e_version = of_nat (field buf 20 4),
      e_entry = of_nat (field buf 24 8),
      e_phoff = of_nat (field buf 32 8),
      e_shoff = of_nat (field buf 40 8),
      e_flags = of_nat (field buf 48 4),
      e_ehsize = of_nat (field buf 52 2),
      e_phentsize = of_nat (field buf 54 2),
      e_phnum = of_nat (field buf 56 2),
      e_shentsize = of_nat (field buf 58 2),
      e_shnum = of_nat (field buf 60 2),
      e_shstrndx = of_nat (field buf 62 2)\<rparr>"

definition decode_phdr :: "u8 list \<Rightarrow> Elf64_Phdr" where
  "decode_phdr buf =
     \<lparr>p_type = of_nat (field buf 0 4),
      p_flags = of_nat (field buf 4 4),
      p_offset = of_nat (field buf 8 8),
      p_vaddr = of_nat (field buf 16 8),
      p_paddr = of_nat (field buf 24 8),
      p_filesz = of_nat (field buf 32 8),
      p_memsz = of_nat (field buf 40 8),
      p_align = of_nat (field buf 48 8)\<rparr>"

text \<open>
  \<open>phdr[i]\<close>: the loop reads the entry at \<open>i * sizeof(Elf64_Phdr)\<close> whatever
  \<open>e_phentsize\<close> says, and of the entry the fields up to \<open>p_memsz\<close>, 48 bytes. An
  entry that does not lie in the buffer is \<open>None\<close>.
\<close>

definition phdr_at :: "u8 list \<Rightarrow> nat \<Rightarrow> Elf64_Phdr option" where
  "phdr_at buf i =
     (if 56 * i + 48 \<le> length buf then Some (decode_phdr (drop (56 * i) buf)) else None)"

text \<open>
  A buffer of \<open>n\<close> bytes after a read that delivered \<open>bs\<close>: what was not read keeps
  the bytes the buffer held before, which the program never set.
\<close>

definition read_into :: "platform \<Rightarrow> nat \<Rightarrow> u8 list \<Rightarrow> u8 list" where
  "read_into host n bs = bs @ map (indeterminate host) [length bs..<n]"

definition EI_MAG0 :: nat where "EI_MAG0 = 0"
definition EI_MAG1 :: nat where "EI_MAG1 = 1"
definition EI_MAG2 :: nat where "EI_MAG2 = 2"
definition EI_MAG3 :: nat where "EI_MAG3 = 3"
definition EI_CLASS :: nat where "EI_CLASS = 4"
definition EI_OSABI :: nat where "EI_OSABI = 7"
definition ELFMAG0 :: u8 where "ELFMAG0 = 0x7f"
definition ELFMAG1 :: u8 where "ELFMAG1 = 0x45"
definition ELFMAG2 :: u8 where "ELFMAG2 = 0x4c"
definition ELFMAG3 :: u8 where "ELFMAG3 = 0x46"
definition ELFCLASS64 :: u8 where "ELFCLASS64 = 2"
definition ET_EXEC :: u16 where "ET_EXEC = 2"
definition EM_X86_64 :: u16 where "EM_X86_64 = 62"
definition PT_LOAD :: u32 where "PT_LOAD = 1"

text \<open>
  Modelled from the spec: \<open>HERMIT_ELFOSABI\<close> is defined in proxy.h, which is not
  among the sources; the spec speaks of a specific OS/ABI octet that identifies the
  supported guest family, which is 0xFF for HermitCore images.
\<close>

definition HERMIT_ELFOSABI :: u8 where
  "HERMIT_ELFOSABI = 0xFF"

text \<open>The condition under which \<open>load_kernel\<close> reports an invalid file.\<close>

definition not_hermit_file :: "Elf64_Ehdr \<Rightarrow> bool" where
  "not_hermit_file hdr \<longleftrightarrow>
     e_ident hdr ! EI_MAG0 \<noteq> ELFMAG0
     \<or> e_ident hdr ! EI_MAG1 \<noteq> ELFMAG1
     \<or> e_ident hdr ! EI_MAG2 \<noteq> ELFMAG2
     \<or> e_ident hdr ! EI_MAG3 \<noteq> ELFMAG3
     \<or> e_ident hdr ! EI_CLASS \<noteq> ELFCLASS64
     \<or> e_ident hdr ! EI_OSABI \<noteq> HERMIT_ELFOSABI
     \<or> e_type hdr \<noteq> ET_EXEC \<or> e_machine hdr \<noteq> EM_X86_64"

text \<open>
  The stores under \<open>if (first_load)\<close>, at fixed offsets from \<open>mem + paddr\<close>.
\<close>

definition write_boot_info :: "platform \<Rightarrow> nat \<Rightarrow> u64 \<Rightarrow> monitor \<Rightarrow> monitor option" where
  "write_boot_info host paddr filesz m =
     Option.bind (Option.bind (Option.bind (Option.bind (Option.bind (Option.bind (Option.bind
       (put_u64 (paddr + 0x08) (of_nat paddr) m)
       (put_u64 (paddr + 0x10) (guest_size m)))
       (put_u32 (paddr + 0x18) (get_cpufreq host)))
       (put_u32 (paddr + 0x24) 1))
       (put_u32 (paddr + 0x30) 0))
       (put_u64 (paddr + 0x38) filesz))
       (put_u32 (paddr + 0x60) 1))
       (put_u32 (paddr + 0x94) 1)"

text \<open>
  \<open>if (!klog) klog = mem+paddr+0x5000; if (!mboot) mboot = mem+paddr;\<close>
\<close>

definition set_anchors :: "nat \<Rightarrow> monitor \<Rightarrow> monitor" where
  "set_anchors paddr m =
     (let m1 = (if klog m = None then m\<lparr>klog := Some (paddr + 0x5000)\<rparr> else m);
          m2 = (if mboot m1 = None then m1\<lparr>mboot := Some paddr\<rparr> else m1)
      in m2)"

text \<open>
  The bytes at \<open>paddr\<close> that the stores under \<open>if (first_load)\<close> cover: +0x08 to
  +0x1c, and the fields at +0x24, +0x30, +0x38, +0x60 and +0x94.
\<close>

definition in_boot_info :: "nat \<Rightarrow> nat \<Rightarrow> bool" where
  "in_boot_info paddr a \<longleftrightarrow>
     (paddr + 0x08 \<le> a \<and> a < paddr + 0x1c) \<or> (paddr + 0x24 \<le> a \<and> a < paddr + 0x28)
     \<or> (paddr + 0x30 \<le> a \<and> a < paddr + 0x34) \<or> (paddr + 0x38 \<le> a \<and> a < paddr + 0x40)
     \<or> (paddr + 0x60 \<le> a \<and> a < paddr + 0x64) \<or> (paddr + 0x94 \<le> a \<and> a < paddr + 0x98)"

text \<open>
  How one round of the \<open>for\<close> loop ends: with the next round (the monitor and
  \<open>first_load\<close>), at \<open>goto out\<close>, or in an access outside the memory.
\<close>

datatype loaded = Next monitor bool | GotoOut monitor | Faulted

text \<open>
  The body of the loop for the program header \<open>ph\<close>. The result of
  \<open>pread_in_full\<close> goes through the \<open>int ret\<close>, so a count with bit 31 set reads
  as negative. \<open>memsz - filesz\<close> is a subtraction of \<open>size_t\<close>.
\<close>

definition load_segment :: "platform \<Rightarrow> u8 list \<Rightarrow> Elf64_Phdr \<Rightarrow> monitor \<Rightarrow> bool \<Rightarrow> loaded" where
  "load_segment host file ph m first_load =
     (let paddr = unat (p_paddr ph); offset = p_offset ph;
          filesz = p_filesz ph; memsz = p_memsz ph
      in if p_type ph \<noteq> PT_LOAD then Next m first_load
         else
           (case pread_in_full file (unat filesz) (sint offset) of
              Inl e \<Rightarrow> GotoOut m
            | Inr bs \<Rightarrow>
                (case put_bytes paddr bs m of
                   None \<Rightarrow> Faulted
                 | Some m1 \<Rightarrow>
                     if (of_nat (length bs) :: s32) <s 0 then GotoOut m1
                     else
                       (case zero_fill (paddr + unat filesz) (unat (memsz - filesz)) m1 of
                          None \<Rightarrow> Faulted
                        | Some m2 \<Rightarrow>
                            let m3 = set_anchors paddr m2
                            in if first_load
                               then (case write_boot_info host paddr filesz m3 of
                                       None \<Rightarrow> Faulted
                                     | Some m4 \<Rightarrow> Next m4 False)
                               else Next m3 first_load))))"

text \<open>The loop over \<open>phdr[0]\<close> to \<open>phdr[e_phnum - 1]\<close>.\<close>

fun load_segments :: "platform \<Rightarrow> u8 list \<Rightarrow> Elf64_Phdr option list \<Rightarrow> monitor \<Rightarrow> bool \<Rightarrow> loaded" where
  "load_segments host file [] m first_load = Next m first_load"
| "load_segments host file (None # phs) m first_load = Faulted"
| "load_segments host file (Some ph # phs) m first_load =
     (case load_segment host file ph m first_load of
        Next m' first_load' \<Rightarrow> load_segments host file phs m' first_load'
      | GotoOut m' \<Rightarrow> GotoOut m'
      | Faulted \<Rightarrow> Faulted)"

text \<open>The label \<open>out\<close>: \<open>phdr\<close> is freed if it was allocated, the file closed, 0 returned.\<close>

definition out :: "bool \<Rightarrow> monitor \<Rightarrow> s32 run \<times> monitor" where
  "out allocated m = (Returns 0, emit ((if allocated then [HostFree] else []) @ [HostCloseFile]) m)"

text \<open>
  \<open>buflen\<close> is the product of two \<open>uint16_t\<close> taken as \<open>int\<close> and widened to
  \<open>size_t\<close>; a product beyond \<open>INT_MAX\<close> wraps to a negative \<open>int\<close> and widens to
  a size that no \<open>malloc\<close> grants.
\<close>

definition load_kernel :: "platform \<Rightarrow> string \<Rightarrow> monitor \<Rightarrow> s32 run \<times> monitor" where
  "load_kernel host path m =
     (case open_file host path of
        None \<Rightarrow> (Returns (- 1), emit [HostOpen path, HostPerror ''Unable to open file''] m)
      | Some file \<Rightarrow>
          (let m0 = emit [HostOpen path] m
           in case pread_in_full file 64 0 of
                Inl e \<Rightarrow> out False m0
              | Inr bs \<Rightarrow>
                  if (of_nat (length bs) :: s32) <s 0 then out False m0
                  else
                    (let hdr = decode_ehdr (read_into host 64 bs)
                     in if not_hermit_file hdr
                        then out False (emit [HostStderr ''Inavlide HermitCore file!\<newline>''] m0)
                        else
                          (let m1 = m0\<lparr>elf_entry := e_entry hdr\<rparr>;
                               buflen = unat (scast (ucast (e_phentsize hdr) * ucast (e_phnum hdr) :: s32) :: u64)
                           in if \<not> malloc_ok host buflen
                              then out False (emit [HostStderr ''Not enough memory\<newline>''] m1)
                              else
                                (case pread_in_full file buflen (sint (e_phoff hdr)) of
                                   Inl e \<Rightarrow> out True m1
                                 | Inr ps \<Rightarrow>
                                     if (of_nat (length ps) :: s32) <s 0 then out True m1
                                     else
                                       (case load_segments host file
                                               (map (phdr_at (read_into host buflen ps))
                                                  [0..<unat (e_phnum hdr)])
                                               m1 True of
                                          Next m2 first_load \<Rightarrow> out True m2
                                        | GotoOut m2 \<Rightarrow> out True m2
                                        | Faulted \<Rightarrow> (Faults, m1)))))))"

text \<open>
  What the two reads of \<open>load_kernel\<close> deliver when the file holds all the bytes
  they ask for: the header is decoded from the first \<open>sizeof(hdr)\<close> = 64 bytes of
  the file, and \<open>phdr[i]\<close> from the bytes at \<open>e_phoff + i * sizeof(Elf64_Phdr)\<close>.
\<close>

definition file_ehdr :: "u8 list \<Rightarrow> Elf64_Ehdr" where
  "file_ehdr file = decode_ehdr (take 64 file)"

definition file_phdr :: "u8 list \<Rightarrow> nat \<Rightarrow> Elf64_Phdr" where
  "file_phdr file i = decode_phdr (drop (unat (e_phoff (file_ehdr file)) + 56 * i) file)"

section \<open>Setting up the boot processor\<close>

definition GUEST_PAGE_SIZE :: nat where "GUEST_PAGE_SIZE = 0x200000"
definition BOOT_GDT :: nat where "BOOT_GDT = 0x1000"
definition BOOT_PML4 :: nat where "BOOT_PML4 = 0x10000"
definition BOOT_PDPTE :: nat where "BOOT_PDPTE = 0x11000"
definition BOOT_PDE :: nat where "BOOT_PDE = 0x12000"
definition BOOT_GDT_NULL :: nat where "BOOT_GDT_NULL = 0"
definition BOOT_GDT_CODE :: nat where "BOOT_GDT_CODE = 1"
definition BOOT_GDT_DATA :: nat where "BOOT_GDT_DATA = 2"
definition BOOT_GDT_MAX :: nat where "BOOT_GDT_MAX = 3"

text \<open>
  Modelled from the spec: the flag macros are defined in uhyve-cpu.h, which is not
  among the sources. The spec names them: present, writable and page-size for the
  page-table entries, CR0.PE and CR0.PG, CR4.PAE; the values are the bits that
  the x86-64 architecture gives these names. \<open>EFER_LME\<close> is bit 8 in
  asm/msr-index.h.
\<close>

definition X86_PDPT_P :: u64 where "X86_PDPT_P = push_bit 0 1"
definition X86_PDPT_RW :: u64 where "X86_PDPT_RW = push_bit 1 1"
definition X86_PDPT_PS :: u64 where "X86_PDPT_PS = push_bit 7 1"
definition X86_CR0_PE :: u64 where "X86_CR0_PE = push_bit 0 1"
definition X86_CR0_PG :: u64 where "X86_CR0_PG = push_bit 31 1"
definition X86_CR4_PAE :: u64 where "X86_CR4_PAE = push_bit 5 1"
definition EFER_LME :: u64 where "EFER_LME = push_bit 8 1"

definition setup_system_64bit :: "kvm_sregs \<Rightarrow> kvm_sregs" where
  "setup_system_64bit sr = sr\<lparr>cr0 := cr0 sr OR X86_CR0_PE, efer := efer sr OR EFER_LME\<rparr>"

text \<open>
  The \<open>for\<close> loop of \<open>setup_system_page_tables\<close>: \<open>paddr\<close> and the offset of
  \<open>pde\<close> in guest memory. The loop runs after the two assertions, under which
  \<open>paddr\<close> stays far below the range of \<open>uint64_t\<close>.
\<close>

function pde_loop :: "nat \<Rightarrow> nat \<Rightarrow> monitor \<Rightarrow> monitor option" where
  "pde_loop paddr pde m =
     (if paddr < unat (guest_size m)
      then (case put_u64 pde (of_nat paddr OR (X86_PDPT_P OR X86_PDPT_RW OR X86_PDPT_PS)) m of
              None \<Rightarrow> None
            | Some m' \<Rightarrow> pde_loop (paddr + GUEST_PAGE_SIZE) (pde + 8) m')
      else Some m)"
  by pat_completeness auto
termination
  by (relation "measure (\<lambda>(paddr, pde, m). unat (guest_size m) - paddr)")
     (auto simp: put_u64_def put_bytes_def GUEST_PAGE_SIZE_def split: if_splits)

declare pde_loop.simps [simp del]

text \<open>
  \<open>setup_system_page_tables(&sregs, mem)\<close> on the \<open>static sregs\<close> and guest memory.
  The assertions are compiled in (no \<open>NDEBUG\<close>).
\<close>

definition setup_system_page_tables :: "monitor \<Rightarrow> unit run \<times> monitor" where
  "setup_system_page_tables m =
     (if guest_size m AND (of_nat GUEST_PAGE_SIZE - 1) \<noteq> 0 then (AssertFailed, m)
      else if \<not> guest_size m \<le> of_nat (GUEST_PAGE_SIZE * 512) then (AssertFailed, m)
      else
        (case Option.bind (Option.bind (Option.bind (Option.bind (Option.bind
                (zero_fill BOOT_PML4 4096 m)
                (zero_fill BOOT_PDPTE 4096))
                (zero_fill BOOT_PDE 4096))
                (put_u64 BOOT_PML4 (of_nat BOOT_PDPTE OR (X86_PDPT_P OR X86_PDPT_RW))))
                (put_u64 BOOT_PDPTE (of_nat BOOT_PDE OR (X86_PDPT_P OR X86_PDPT_RW))))
                (pde_loop 0 BOOT_PDE) of
           None \<Rightarrow> (Faults, m)
         | Some m' \<Rightarrow>
             (Returns (),
              m'\<lparr>sregs := (sregs m')\<lparr>cr3 := of_nat BOOT_PML4,
                                      cr4 := cr4 (sregs m') OR X86_CR4_PAE,
                                      cr0 := cr0 (sregs m') OR X86_CR0_PG\<rparr>\<rparr>)))"

text \<open>
  For the proofs: the entry that the loop stores at index \<open>j\<close> of the PDE page, and
  the monitor after the three \<open>memset\<close> and the two stores that come before
  the loop.
\<close>

definition pde_entry :: "nat \<Rightarrow> u64" where
  "pde_entry j = of_nat (j * GUEST_PAGE_SIZE) OR (X86_PDPT_P OR X86_PDPT_RW OR X86_PDPT_PS)"

definition tables_cleared :: "monitor \<Rightarrow> monitor" where
  "tables_cleared m =
     m\<lparr>guest_mem :=
         store_bytes
           (store_bytes
              (memset (memset (memset (guest_mem m) BOOT_PML4 0 4096) BOOT_PDPTE 0 4096) BOOT_PDE 0 4096)
              BOOT_PML4 (le_bytes 8 (unat (of_nat BOOT_PDPTE OR (X86_PDPT_P OR X86_PDPT_RW) :: u64))))
           BOOT_PDPTE (le_bytes 8 (unat (of_nat BOOT_PDE OR (X86_PDPT_P OR X86_PDPT_RW) :: u64)))\<rparr>"

definition setup_system_gdt :: "platform \<Rightarrow> nat \<Rightarrow> monitor \<Rightarrow> unit run \<times> monitor" where
  "setup_system_gdt host off m =
     (case Option.bind (Option.bind
             (put_u64 (off + 8 * BOOT_GDT_NULL) (GDT_ENTRY host 0 0 0) m)
             (put_u64 (off + 8 * BOOT_GDT_CODE) (GDT_ENTRY host 0xA09B 0 0xFFFFF)))
             (put_u64 (off + 8 * BOOT_GDT_DATA) (GDT_ENTRY host 0xC093 0 0xFFFFF)) of
        None \<Rightarrow> (Faults, m)
      | Some m' \<Rightarrow>
          (let code_seg = GDT_TO_KVM_SEGMENT host
                            (load_u64 (guest_mem m') (off + 8 * BOOT_GDT_CODE)) BOOT_GDT_CODE;
               data_seg = GDT_TO_KVM_SEGMENT host
                            (load_u64 (guest_mem m') (off + 8 * BOOT_GDT_DATA)) BOOT_GDT_DATA
           in (Returns (),
               m'\<lparr>sregs := (sregs m')\<lparr>gdt_base := of_nat off,
                                       gdt_limit := of_nat (8 * BOOT_GDT_MAX - 1),
                                       sregs_cs := code_seg, sregs_ds := data_seg,
                                       sregs_es := data_seg, sregs_fs := data_seg,
                                       sregs_gs := data_seg, sregs_ss := data_seg\<rparr>\<rparr>)))"

definition setup_system :: "platform \<Rightarrow> u32 \<Rightarrow> monitor \<Rightarrow> unit run \<times> monitor" where
  "setup_system host idn m =
     and_then
       (if idn = 0
        then and_then (kvm_ioctl host KVM_GET_SREGS m) (\<lambda>_ m1.
             and_then (setup_system_gdt host BOOT_GDT (m1\<lparr>sregs := host_sregs host\<rparr>)) (\<lambda>_ m2.
             and_then (setup_system_page_tables m2) (\<lambda>_ m3.
               (Returns (), m3\<lparr>sregs := setup_system_64bit (sregs m3)\<rparr>))))
        else (Returns (), m))
       (\<lambda>_ m4. and_then (kvm_ioctl host (KVM_SET_SREGS (sregs m4)) m4) (\<lambda>_ m5. (Returns (), m5)))"

definition CPUID_FUNC_PERFMON :: u32 where
  "CPUID_FUNC_PERFMON = 0x0A"

definition filter_entry :: "kvm_cpuid_entry2 \<Rightarrow> kvm_cpuid_entry2" where
  "filter_entry entry =
     (if cpuid_function entry = 1
      then entry\<lparr>cpuid_ecx := cpuid_ecx entry OR push_bit 31 1,
                 cpuid_edx := cpuid_edx entry OR push_bit 5 1\<rparr>
      else if cpuid_function entry = CPUID_FUNC_PERFMON then entry\<lparr>cpuid_eax := 0\<rparr>
      else entry)"

definition filter_cpuid :: "kvm_cpuid_entry2 list \<Rightarrow> kvm_cpuid_entry2 list" where
  "filter_cpuid entries = map filter_entry entries"

definition setup_cpuid :: "platform \<Rightarrow> monitor \<Rightarrow> unit run \<times> monitor" where
  "setup_cpuid host m =
     and_then (kvm_ioctl host KVM_GET_SUPPORTED_CPUID m) (\<lambda>_ m1.
     and_then (kvm_ioctl host (KVM_SET_CPUID2 (filter_cpuid (supported_cpuid host))) m1) (\<lambda>_ m2.
       (Returns (), m2)))"

section \<open>vcpu_init\<close>

text \<open>
  The thread reads the counter at \<open>mboot + 0x20\<close> and yields while it is below
  \<open>id\<close>; the guest raises it, so a thread that finds it too low waits. With
  \<open>mboot\<close> still \<open>NULL\<close> the read is an access outside the memory.
  \<open>KVM_GET_VCPU_MMAP_SIZE\<close> is asked of \<open>kvm\<close>; its \<open>int\<close> widens to \<open>size_t\<close>.
\<close>

definition vcpu_init :: "platform \<Rightarrow> u32 \<Rightarrow> monitor \<Rightarrow> s32 run \<times> monitor" where
  "vcpu_init host idn m =
     (case mboot m of
        None \<Rightarrow> (Faults, m)
      | Some mb \<Rightarrow>
          if \<not> in_guest m (mb + 0x20) 4 then (Faults, m)
          else if load_u32 (guest_mem m) (mb + 0x20) < idn then (Waits, m)
          else
            (case put_u32 (mb + 0x30) idn m of
               None \<Rightarrow> (Faults, m)
             | Some m1 \<Rightarrow>
                 and_then (kvm_ioctl host (KVM_CREATE_VCPU idn) m1) (\<lambda>fd m2.
                 and_then (setup_system host idn (m2\<lparr>vcpufd := fd\<rparr>)) (\<lambda>_ m3.
                 and_then (kvm_ioctl host
                             (KVM_SET_REGS \<lparr>rip = elf_entry m3, rax = 2, rbx = 2, rdx = 0, rflags = 0x2\<rparr>)
                             m3) (\<lambda>_ m4.
                 and_then (kvm_ioctl host KVM_GET_VCPU_MMAP_SIZE m4) (\<lambda>mmap_size m5.
                   if unat (scast mmap_size :: u64) < sizeof_kvm_run host then (Exits 1, m5)
                   else if \<not> mmap_run host then (Exits 1, emit [HostMmapRun] m5)
                   else and_then (setup_cpuid host (emit [HostMmapRun] m5)) (\<lambda>_ m6.
                          (Returns 0, m6))))))))"

section \<open>Hypercall handlers of vcpu_loop\<close>

text \<open>
  A handler of \<open>case KVM_EXIT_IO\<close> works on one packed record in guest memory.
  The model takes the record as a value and returns it updated, with the host
  calls the handler makes; what the host answers is an argument. A handler
  either breaks out of the switch or stops the monitor at a failed \<open>assert\<close>.
\<close>

datatype 'a handled = Break 'a | Aborted

record uhyve_close_t =
  close_fd :: s32
  close_ret :: s32

text \<open>
  \<^verbatim>\<open>if (uhyve_close->ret > 2) uhyve_close->ret = close(uhyve_close->fd);\<close>
  \<open>host_close\<close> is what \<open>close(2)\<close> returns for a descriptor.
\<close>

definition port_close :: "(s32 \<Rightarrow> s32) \<Rightarrow> uhyve_close_t \<Rightarrow> uhyve_close_t \<times> host_call list" where
  "port_close host_close r =
     (if 2 <s close_ret r
      then (r\<lparr>close_ret := host_close (close_fd r)\<rparr>, [HostClose (close_fd r)])
      else (r, []))"

text \<open>
  Modelled from the spec: the declaration of \<open>uhyve_netread_t\<close> is in uhyve-net.h,
  which is not among the sources; the spec gives the record as \<open>{data, len, ret}\<close>,
  a guest pointer, a \<open>size_t\<close> and an \<open>int\<close>.
\<close>

record uhyve_netread_t =
  netread_data :: u64
  netread_len :: u64
  netread_ret :: s32

text \<open>
  The NETREAD handler. \<open>rd\<close> is the \<open>ssize_t\<close> that \<open>read(netfd, ...)\<close> returns and
  \<open>errno\<close> the error number it leaves. The handler keeps the result in a local
  \<open>int ret\<close>, so the 64-bit value is cut to 32 bits first; the assignment
  \<open>uhyve_netread->len = ret\<close> widens the \<open>int\<close> to \<open>size_t\<close> with its sign.
  The bytes that \<open>read\<close> stores in the guest buffer are not part of the record.
\<close>

definition port_netread :: "s32 \<Rightarrow> s64 \<Rightarrow> int \<Rightarrow> uhyve_netread_t \<Rightarrow> (uhyve_netread_t \<times> host_call list) handled" where
  "port_netread fd rd errno r =
     (let made = [HostRead fd (netread_data r) (netread_len r)];
          ret = (ucast rd :: s32)
      in if ret = 0 \<or> (ret = - 1 \<and> errno = EAGAIN)
         then Break (r\<lparr>netread_ret := - 1\<rparr>, made)
         else if \<not> 0 <s ret then Aborted
         else Break (r\<lparr>netread_len := scast ret, netread_ret := 0\<rparr>, made))"

section \<open>uhyve_init\<close>

text \<open>
  \<open>768 << 20\<close>, an \<open>int\<close> that the comparison with \<open>guest_size\<close> widens to \<open>size_t\<close>.
\<close>

definition KVM_32BIT_MAX_MEM_SIZE :: u64 where
  "KVM_32BIT_MAX_MEM_SIZE = push_bit 32 1"

definition KVM_32BIT_GAP_SIZE :: u64 where
  "KVM_32BIT_GAP_SIZE = push_bit 20 768"

definition KVM_32BIT_GAP_START :: u64 where
  "KVM_32BIT_GAP_START = KVM_32BIT_MAX_MEM_SIZE - KVM_32BIT_GAP_SIZE"

definition GUEST_OFFSET :: u64 where
  "GUEST_OFFSET = 0x0"

text \<open>
  The anonymous mapping is filled with zero bytes; \<open>mmap\<close> of no bytes fails with
  \<open>EINVAL\<close> on Linux, whatever the host would answer otherwise.
\<close>

definition uhyve_init :: "platform \<Rightarrow> string \<Rightarrow> monitor \<Rightarrow> s32 run \<times> monitor" where
  "uhyve_init host path m =
     (let m1 = emit [HostSignal SIGTERM, HostAtexit] m;
          m2 = (case getenv host ''HERMIT_MEM'' of
                  None \<Rightarrow> m1
                | Some str \<Rightarrow> m1\<lparr>guest_size := memparse str\<rparr>);
          m3 = (emit [HostOpen ''/dev/kvm''] m2)\<lparr>kvm := open_kvm host\<rparr>
      in if kvm m3 <s 0 then (Exits 1, m3)
         else
           and_then (kvm_ioctl host KVM_GET_API_VERSION m3) (\<lambda>kvm_api_version m4.
             if kvm_api_version \<noteq> 12 then (Exits 1, m4)
             else
               and_then (kvm_ioctl host KVM_CREATE_VM m4) (\<lambda>fd m5.
                 (let m6 = m5\<lparr>vmfd := fd\<rparr>
                  in if \<not> guest_size m6 < KVM_32BIT_GAP_SIZE then (AssertFailed, m6)
                     else
                       (let m7 = emit [HostMmap (guest_size m6)] m6
                        in if guest_size m7 = 0 \<or> \<not> mmap_guest host then (Exits 1, m7)
                           else
                             and_then (load_kernel host path (m7\<lparr>guest_mem := (\<lambda>_. 0)\<rparr>)) (\<lambda>ret m8.
                               if ret \<noteq> 0 then (Exits EXIT_FAILURE, m8)
                               else
                                 and_then (kvm_ioctl host
                                             (KVM_SET_USER_MEMORY_REGION
                                                \<lparr>region_slot = 0,
                                                 region_guest_phys_addr = GUEST_OFFSET,
                                                 region_memory_size = guest_size m8\<rparr>) m8) (\<lambda>_ m9.
                                 and_then (kvm_ioctl host KVM_CREATE_IRQCHIP m9) (\<lambda>_ m10.
                                   vcpu_init host 0 m10))))))))"

text \<open>
  For the proofs: \<open>guest_size\<close> after \<open>if (str) guest_size = memparse(str)\<close>, and the
  monitor that \<open>uhyve_init\<close> hands to \<open>load_kernel\<close> when the host's answers and the
  assertion let it get there.
\<close>

definition parsed_guest_size :: "platform \<Rightarrow> monitor \<Rightarrow> u64" where
  "parsed_guest_size host m =
     (case getenv host ''HERMIT_MEM'' of None \<Rightarrow> guest_size m | Some str \<Rightarrow> memparse str)"

definition before_load :: "platform \<Rightarrow> monitor \<Rightarrow> monitor" where
  "before_load host m =
     (let m1 = emit [HostSignal SIGTERM, HostAtexit] m;
          m2 = (case getenv host ''HERMIT_MEM'' of
                  None \<Rightarrow> m1
                | Some str \<Rightarrow> m1\<lparr>guest_size := memparse str\<rparr>);
          m3 = (emit [HostOpen ''/dev/kvm''] m2)\<lparr>kvm := open_kvm host\<rparr>;
          m4 = emit [HostIoctl KVM_GET_API_VERSION] m3;
          m5 = emit [HostIoctl KVM_CREATE_VM] m4;
          m6 = m5\<lparr>vmfd := ioctl_ret host KVM_CREATE_VM\<rparr>;
          m7 = emit [HostMmap (guest_size m6)] m6
      in m7\<lparr>guest_mem := (\<lambda>_. 0)\<rparr>)"

section \<open>The monitor at start, and a host to run it on\<close>

text \<open>The initial values of the file-scope variables; \<open>vcpufd\<close> starts as 1.\<close>

definition zero_segment :: kvm_segment where
  "zero_segment =
     \<lparr>seg_base = 0, seg_limit = 0, seg_selector = 0, seg_type = 0, seg_present = 0, seg_dpl = 0,
      seg_db = 0, seg_s = 0, seg_l = 0, seg_g = 0, seg_avl = 0\<rparr>"

definition zero_sregs :: kvm_sregs where
  "zero_sregs =
     \<lparr>sregs_cs = zero_segment, sregs_ds = zero_segment, sregs_es = zero_segment,
      sregs_fs = zero_segment, sregs_gs = zero_segment, sregs_ss = zero_segment,
      gdt_base = 0, gdt_limit = 0, cr0 = 0, cr3 = 0, cr4 = 0, efer = 0\<rparr>"

definition initial_monitor :: monitor where
  "initial_monitor =
     \<lparr>ncores = 1, guest_mem = (\<lambda>_. 0), klog = None, mboot = None, guest_size = 0x20000000,
      elf_entry = 0, vcpu_threads = None, kvm = - 1, vmfd = - 1, netfd = - 1, vcpufd = 1,
      sregs = zero_sregs, calls = []\<rparr>"

text \<open>
  A host for the examples: no environment variable is set, every system call
  succeeds, \<open>/dev/kvm\<close> opens as descriptor 3, the VM as 4, a vCPU as 5, and the
  one file is \<open>file\<close> under the name \<open>kernel\<close>. Buffers hold zero bytes before
  they are written; the two macros yield zero.
\<close>

definition example_ioctl :: "kvm_cmd \<Rightarrow> s32" where
  "example_ioctl cmd =
     (case cmd of
        KVM_GET_API_VERSION \<Rightarrow> 12
      | KVM_CREATE_VM \<Rightarrow> 4
      | KVM_CREATE_VCPU _ \<Rightarrow> 5
      | KVM_GET_VCPU_MMAP_SIZE \<Rightarrow> 0x3000
      | _ \<Rightarrow> 0)"

definition example_host :: "u8 list \<Rightarrow> platform" where
  "example_host file =
     \<lparr>getenv = (\<lambda>_. None), open_kvm = 3, ioctl_ret = example_ioctl, host_sregs = zero_sregs,
      mmap_guest = True, mmap_run = True, sizeof_kvm_run = 0x930, supported_cpuid = [],
      open_file = (\<lambda>path. if path = ''kernel'' then Some file else None),
      malloc_ok = (\<lambda>_. True), indeterminate = (\<lambda>_. 0), get_cpufreq = 2400,
      GDT_ENTRY = (\<lambda>_ _ _. 0), GDT_TO_KVM_SEGMENT = (\<lambda>_ _. zero_segment)\<rparr>"

text \<open>Calls that close a descriptor, and calls that signal or join a thread.\<close>

fun is_close :: "host_call \<Rightarrow> bool" where
  "is_close (HostClose fd) = True"
| "is_close _ = False"

fun is_pthread_call :: "host_call \<Rightarrow> bool" where
  "is_pthread_call (PthreadKill t sig) = True"
| "is_pthread_call (PthreadJoin t) = True"
| "is_pthread_call _ = False"

text \<open>
  A small image for the examples, 124 bytes: the ELF header, one program header
  of type \<open>PT_LOAD\<close> that loads the whole file at 0x200000 with a memory size of
  0x1000, and four bytes of code.
\<close>

definition example_ehdr :: "u8 list" where
  "example_ehdr =
     [0x7f, 0x45, 0x4c, 0x46, 0x02, 0x01, 0x01, 0xff, 0, 0, 0, 0, 0, 0, 0, 0,
      0x02, 0x00, 0x3e, 0x00, 0x01, 0, 0, 0,
      0x78, 0x00, 0x20, 0, 0, 0, 0, 0,
      0x40, 0, 0, 0, 0, 0, 0, 0,
      0, 0, 0, 0, 0, 0, 0, 0,
      0, 0, 0, 0, 0x40, 0x00, 0x38, 0x00,
      0x01, 0x00, 0x40, 0x00, 0, 0, 0, 0]"

definition example_phdr :: "u8 list" where
  "example_phdr =
     [0x01, 0, 0, 0, 0x07, 0, 0, 0,
      0, 0, 0, 0, 0, 0, 0, 0,
      0x00, 0x00, 0x20, 0, 0, 0, 0, 0,
      0x00, 0x00, 0x20, 0, 0, 0, 0, 0,
      0x7c, 0, 0, 0, 0, 0, 0, 0,
      0x00, 0x10, 0, 0, 0, 0, 0, 0,
      0x00, 0x00, 0x20, 0, 0, 0, 0, 0]"

definition example_image :: "u8 list" where
  "example_image = example_ehdr @ example_phdr @ [0xf4, 0x90, 0x90, 0x90]"

text \<open>The program header of \<open>example_image\<close>.\<close>

definition example_program_header :: Elf64_Phdr where
  "example_program_header =
     \<lparr>p_type = 1, p_flags = 7, p_offset = 0, p_vaddr = 0x200000, p_paddr = 0x200000,
      p_filesz = 0x7c, p_memsz = 0x1000, p_align = 0x200000\<rparr>"

text \<open>
  The same image with \<open>e_machine\<close> changed from 62 (\<open>EM_X86_64\<close>) to 3 (\<open>EM_386\<close>).
\<close>

definition bad_machine_image :: "u8 list" where
  "bad_machine_image = take 18 example_image @ [0x03] @ drop 19 example_image"

text \<open>
  An image with three program headers, 280 bytes: the ELF header, the table at
  0x40 (a \<open>PT_NOTE\<close> header, a \<open>PT_LOAD\<close> header that loads the first 0xe8 bytes of
  the file at 0x200000 with a memory size of 0x1000, and a \<open>PT_LOAD\<close> header that
  loads the 0x30 bytes at 0xe8 at 0x400000 with a memory size of 0x100), and
  those 0x30 bytes.
\<close>

definition three_header_ehdr :: "u8 list" where
  "three_header_ehdr =
     [0x7f, 0x45, 0x4c, 0x46, 0x02, 0x01, 0x01, 0xff, 0, 0, 0, 0, 0, 0, 0, 0,
      0x02, 0x00, 0x3e, 0x00, 0x01, 0, 0, 0,
      0x00, 0x00, 0x40, 0, 0, 0, 0, 0,
      0x40, 0, 0, 0, 0, 0, 0, 0,
      0, 0, 0, 0, 0, 0, 0, 0,
      0, 0, 0, 0, 0x40, 0x00, 0x38, 0x00,
      0x03, 0x00, 0x40, 0x00, 0, 0, 0, 0]"

definition three_header_table :: "u8 list" where
  "three_header_table =
     [0x04, 0, 0, 0, 0x04, 0, 0, 0,
      0, 0, 0, 0, 0, 0, 0, 0,
      0, 0, 0, 0, 0, 0, 0, 0,
      0, 0, 0, 0, 0, 0, 0, 0,
      0, 0, 0, 0, 0, 0, 0, 0,
      0, 0, 0, 0, 0, 0, 0, 0,
      0x04, 0, 0, 0, 0, 0, 0, 0,
      0x01, 0, 0, 0, 0x06, 0, 0, 0,
      0, 0, 0, 0, 0, 0, 0, 0,
      0x00, 0x00, 0x20, 0, 0, 0, 0, 0,
      0x00, 0x00, 0x20, 0, 0, 0, 0, 0,
      0xe8, 0, 0, 0, 0, 0, 0, 0,
      0x00, 0x10, 0, 0, 0, 0, 0, 0,
      0x00, 0x00, 0x20, 0, 0, 0, 0, 0,
      0x01, 0, 0, 0, 0x05, 0, 0, 0,
      0xe8, 0, 0, 0, 0, 0, 0, 0,
      0x00, 0x00, 0x40, 0, 0, 0, 0, 0,
      0x00, 0x00, 0x40, 0, 0, 0, 0, 0,
      0x30, 0, 0, 0, 0, 0, 0, 0,
      0x00, 0x01, 0, 0, 0, 0, 0, 0,
      0x00, 0x00, 0x20, 0, 0, 0, 0, 0]"

definition three_header_code :: "u8 list" where
  "three_header_code =
     [0x01, 0x02, 0x03, 0x04, 0x05, 0x06, 0x07, 0x08, 0x09, 0x0a, 0x0b, 0x0c, 0x0d, 0x0e, 0x0f, 0x10,
      0x11, 0x12, 0x13, 0x14, 0x15, 0x16, 0x17, 0x18, 0x19, 0x1a, 0x1b, 0x1c, 0x1d, 0x1e, 0x1f, 0x20,
      0x21, 0x22, 0x23, 0x24, 0x25, 0x26, 0x27, 0x28, 0x29, 0x2a, 0x2b, 0x2c, 0x2d, 0x2e, 0x2f, 0x30]"

definition three_header_image :: "u8 list" where
  "three_header_image = three_header_ehdr @ three_header_table @ three_header_code"

section \<open>Properties of the hypercall handlers\<close>

text \<open>
  C6. The CLOSE handler calls the host's \<open>close\<close> on the record's \<open>fd\<close> exactly when
  the incoming \<open>ret\<close> field is greater than 2, and then stores the result of
  \<open>close\<close> in \<open>ret\<close>; when \<open>ret\<close> is at most 2 it makes no host call and leaves
  the record unchanged.
\<close>

theorem port_close_gate:
  "(snd (port_close host_close r) = [HostClose (close_fd r)] \<longleftrightarrow> 2 < sint (close_ret r))
   \<and> (2 < sint (close_ret r) \<longrightarrow>
        fst (port_close host_close r) = r\<lparr>close_ret := host_close (close_fd r)\<rparr>)
   \<and> (sint (close_ret r) \<le> 2 \<longrightarrow> port_close host_close r = (r, []))"
  by (simp add: port_close_def word_sless_alt)

theorem port_close_gate_witness:
  "2 < sint (close_ret \<lparr>close_fd = 5, close_ret = 3\<rparr>)
   \<and> fst (port_close (\<lambda>_. 0) \<lparr>close_fd = 5, close_ret = 3\<rparr>) = \<lparr>close_fd = 5, close_ret = 0\<rparr>
   \<and> snd (port_close (\<lambda>_. 0) \<lparr>close_fd = 5, close_ret = 3\<rparr>) = [HostClose 5]
   \<and> sint (close_ret \<lparr>close_fd = 1, close_ret = 1\<rparr>) \<le> 2
   \<and> port_close (\<lambda>_. 0) \<lparr>close_fd = 1, close_ret = 1\<rparr> = (\<lparr>close_fd = 1, close_ret = 1\<rparr>, [])"
  using port_close_gate [of "\<lambda>_. 0" "\<lparr>close_fd = 5, close_ret = 3\<rparr>"]
    port_close_gate [of "\<lambda>_. 0" "\<lparr>close_fd = 1, close_ret = 1\<rparr>"]
  by simp

text \<open>
  The result of \<open>read\<close> passes through an \<open>int\<close>. A count between 1 and \<open>INT_MAX\<close>
  comes back unchanged; Linux transfers at most 0x7ffff000 bytes in one \<open>read\<close>,
  so every count that \<open>read\<close> returns is in this range.
\<close>

lemma sint_ucast_int:
  assumes "0 < sint (rd :: s64)" and "sint rd \<le> 0x7fffffff"
  shows "sint (ucast rd :: s32) = sint rd"
proof -
  have "uint rd = take_bit 64 (sint rd)"
    by (simp add: uint_sint)
  also have "\<dots> = sint rd"
    using assms by (intro take_bit_int_eq_self) simp_all
  finally have u: "uint rd = sint rd" .
  have "sint (ucast rd :: s32) = signed_take_bit 31 (uint rd)"
    by (simp only: ucast_eq sint_sbintrunc') simp
  also have "\<dots> = sint rd"
    unfolding u using assms by (intro signed_take_bit_int_eq_self) simp_all
  finally show ?thesis .
qed

lemma scast_of_equal_sint:
  assumes "sint (w :: s32) = sint (rd :: s64)"
  shows "(scast w :: s64) = rd"
  by (metis assms scast_id of_int_sint)

lemma ucast_minus_one_s32: "(ucast (- 1 :: s64) :: s32) = - 1"
  by (rule bit_word_eqI) (simp add: bit_simps)

text \<open>
  C7. When the host's \<open>read\<close> on the TAP descriptor returns 0, or fails with
  \<open>EAGAIN\<close>, the NETREAD handler sets \<open>ret\<close> to -1 and leaves \<open>len\<close> as it was; when
  the read returns a count \<open>n > 0\<close> it stores \<open>n\<close> in \<open>len\<close> and 0 in \<open>ret\<close>.
\<close>

theorem port_netread_results:
  "(rd = 0 \<or> (rd = - 1 \<and> errno = EAGAIN) \<longrightarrow>
      port_netread fd rd errno r =
        Break (r\<lparr>netread_ret := - 1\<rparr>, [HostRead fd (netread_data r) (netread_len r)]))
   \<and> (0 < sint rd \<and> sint rd \<le> 0x7fffffff \<longrightarrow>
      port_netread fd rd errno r =
        Break (r\<lparr>netread_len := rd, netread_ret := 0\<rparr>,
               [HostRead fd (netread_data r) (netread_len r)]))"
proof (intro conjI impI)
  assume "rd = 0 \<or> (rd = - 1 \<and> errno = EAGAIN)"
  then show "port_netread fd rd errno r =
        Break (r\<lparr>netread_ret := - 1\<rparr>, [HostRead fd (netread_data r) (netread_len r)])"
    by (auto simp: port_netread_def Let_def ucast_minus_one_s32)
next
  assume a: "0 < sint rd \<and> sint rd \<le> 0x7fffffff"
  then have s: "sint (ucast rd :: s32) = sint rd"
    by (simp add: sint_ucast_int)
  then have "(scast (ucast rd :: s32) :: s64) = rd"
    by (rule scast_of_equal_sint)
  moreover have "0 <s (ucast rd :: s32)"
    using a s by (simp add: word_sless_alt)
  moreover have "(ucast rd :: s32) \<noteq> 0" "(ucast rd :: s32) \<noteq> - 1"
    using a s by auto
  ultimately show "port_netread fd rd errno r =
        Break (r\<lparr>netread_len := rd, netread_ret := 0\<rparr>,
               [HostRead fd (netread_data r) (netread_len r)])"
    by (simp add: port_netread_def Let_def)
qed

theorem port_netread_results_witness:
  "port_netread 7 0 0 \<lparr>netread_data = 0x3000, netread_len = 1500, netread_ret = 5\<rparr> =
     Break (\<lparr>netread_data = 0x3000, netread_len = 1500, netread_ret = - 1\<rparr>, [HostRead 7 0x3000 1500])
   \<and> port_netread 7 (- 1) EAGAIN \<lparr>netread_data = 0x3000, netread_len = 1500, netread_ret = 5\<rparr> =
     Break (\<lparr>netread_data = 0x3000, netread_len = 1500, netread_ret = - 1\<rparr>, [HostRead 7 0x3000 1500])
   \<and> port_netread 7 60 0 \<lparr>netread_data = 0x3000, netread_len = 1500, netread_ret = 5\<rparr> =
     Break (\<lparr>netread_data = 0x3000, netread_len = 60, netread_ret = 0\<rparr>, [HostRead 7 0x3000 1500])"
  using port_netread_results [of 0 0 7 "\<lparr>netread_data = 0x3000, netread_len = 1500, netread_ret = 5\<rparr>"]
    port_netread_results [of "- 1" EAGAIN 7 "\<lparr>netread_data = 0x3000, netread_len = 1500, netread_ret = 5\<rparr>"]
    port_netread_results [of 60 0 7 "\<lparr>netread_data = 0x3000, netread_len = 1500, netread_ret = 5\<rparr>"]
  by simp

text \<open>
  C10. When the host's \<open>read\<close> on the TAP descriptor fails with an error other than
  \<open>EAGAIN\<close> (it returns -1 and \<open>errno\<close> is something else), the assertion
  \<open>ret > 0\<close> of the NETREAD handler fails and the monitor aborts; no record goes
  back to the guest, so the error never shows in its \<open>ret\<close> field.
\<close>

theorem port_netread_error_aborts:
  "errno \<noteq> EAGAIN \<Longrightarrow> port_netread fd (- 1) errno r = Aborted"
  by (simp add: port_netread_def Let_def word_sless_alt ucast_minus_one_s32)

theorem port_netread_error_aborts_witness:
  "(5 :: int) \<noteq> EAGAIN
   \<and> port_netread 7 (- 1) 5 \<lparr>netread_data = 0x3000, netread_len = 1500, netread_ret = 0\<rparr> = Aborted"
  using port_netread_error_aborts [of 5 7 "\<lparr>netread_data = 0x3000, netread_len = 1500, netread_ret = 0\<rparr>"]
  by (simp add: EAGAIN_def)

section \<open>Properties of memparse\<close>

lemmas strtoull_eval =
  strtoull_def isspace_def is_digit_def digit_value_def deref_def ULLONG_MAX_def

lemmas case_labels = case_K_def case_M_def case_G_def case_T_def case_P_def case_E_def

lemma unat_case_K: "unat (case_K n) = unat n * 1024 mod 2 ^ 64"
  by (simp add: case_K_def push_bit_eq_mult unat_word_ariths)

lemma unat_case_M: "unat (case_M n) = unat n * 1024 ^ 2 mod 2 ^ 64"
  by (simp add: case_labels push_bit_eq_mult unat_word_ariths mod_mult_left_eq mult.assoc)

lemma unat_case_G: "unat (case_G n) = unat n * 1024 ^ 3 mod 2 ^ 64"
  by (simp add: case_labels push_bit_eq_mult unat_word_ariths mod_mult_left_eq mult.assoc)

lemma unat_case_T: "unat (case_T n) = unat n * 1024 ^ 4 mod 2 ^ 64"
  by (simp add: case_labels push_bit_eq_mult unat_word_ariths mod_mult_left_eq mult.assoc)

lemma unat_case_P: "unat (case_P n) = unat n * 1024 ^ 5 mod 2 ^ 64"
  by (simp add: case_labels push_bit_eq_mult unat_word_ariths mod_mult_left_eq mult.assoc)

lemma unat_case_E: "unat (case_E n) = unat n * 1024 ^ 6 mod 2 ^ 64"
  by (simp add: case_labels push_bit_eq_mult unat_word_ariths mod_mult_left_eq mult.assoc)

text \<open>
  C3 as stated fails where the product leaves 64 bits: \<open>strtoull\<close> reads 16 from
  \<open>16E\<close> and stops at the suffix, and the six shifts give 0 and not \<open>16 * 1024^6\<close>.
\<close>

theorem memparse_exact_counterexample:
  "strtoull ''16E'' = (16, ''E'') \<and> unat (memparse ''16E'') \<noteq> 16 * 1024 ^ 6"
  by (simp add: memparse_def strtoull_eval case_labels)

text \<open>
  C3, amended. \<open>memparse\<close> of \<open>2M\<close> is \<open>2 * 1024 * 1024\<close>. For every input, with \<open>n\<close>
  the integer that \<open>strtoull\<close> reads and \<open>c\<close> the character it stops at: a suffix
  K, M, G, T, P or E in either case multiplies \<open>n\<close> by 1024, \<open>1024^2\<close>, \<open>1024^3\<close>,
  \<open>1024^4\<close>, \<open>1024^5\<close>, \<open>1024^6\<close> in 64-bit arithmetic, that is modulo \<open>2^64\<close>;
  any other character, or the end of the string, gives \<open>n\<close> itself.
\<close>

theorem memparse_suffix:
  assumes "strtoull ptr = (n, endptr)" and "c = deref endptr"
  shows "memparse ''2M'' = 2 * 1024 * 1024
   \<and> (c = CHR ''K'' \<or> c = CHR ''k'' \<longrightarrow> unat (memparse ptr) = unat n * 1024 mod 2 ^ 64)
   \<and> (c = CHR ''M'' \<or> c = CHR ''m'' \<longrightarrow> unat (memparse ptr) = unat n * 1024 ^ 2 mod 2 ^ 64)
   \<and> (c = CHR ''G'' \<or> c = CHR ''g'' \<longrightarrow> unat (memparse ptr) = unat n * 1024 ^ 3 mod 2 ^ 64)
   \<and> (c = CHR ''T'' \<or> c = CHR ''t'' \<longrightarrow> unat (memparse ptr) = unat n * 1024 ^ 4 mod 2 ^ 64)
   \<and> (c = CHR ''P'' \<or> c = CHR ''p'' \<longrightarrow> unat (memparse ptr) = unat n * 1024 ^ 5 mod 2 ^ 64)
   \<and> (c = CHR ''E'' \<or> c = CHR ''e'' \<longrightarrow> unat (memparse ptr) = unat n * 1024 ^ 6 mod 2 ^ 64)
   \<and> (c \<notin> set ''KkMmGgTtPpEe'' \<longrightarrow> memparse ptr = n)"
proof (intro conjI impI)
  show "memparse ''2M'' = 2 * 1024 * 1024"
    by (simp add: memparse_def strtoull_eval case_labels)
qed (use assms in \<open>auto simp: memparse_def unat_case_K unat_case_M unat_case_G unat_case_T
       unat_case_P unat_case_E\<close>)

theorem memparse_suffix_witness:
  "strtoull ''3g'' = (3, ''g'') \<and> CHR ''g'' = deref ''g''
   \<and> unat (memparse ''3g'') = 3 * 1024 ^ 3
   \<and> strtoull ''0x20000000'' = (0x20000000, []) \<and> CHR 0x00 = deref []
   \<and> memparse ''0x20000000'' = 0x20000000"
  using memparse_suffix [of "''3g''" 3 "''g''" "CHR ''g''"]
    memparse_suffix [of "''0x20000000''" "0x20000000" "[]" "CHR 0x00"]
  by (simp add: strtoull_eval)

section \<open>Properties of uhyve_exit\<close>

lemma emit_fields [simp]:
  "calls (emit cs m) = calls m @ cs" "vcpufd (emit cs m) = vcpufd m" "vmfd (emit cs m) = vmfd m"
  "kvm (emit cs m) = kvm m" "klog (emit cs m) = klog m" "vcpu_threads (emit cs m) = vcpu_threads m"
  "guest_size (emit cs m) = guest_size m" "guest_mem (emit cs m) = guest_mem m"
  "mboot (emit cs m) = mboot m" "elf_entry (emit cs m) = elf_entry m" "sregs (emit cs m) = sregs m"
  by (simp_all add: emit_def)

lemma filter_is_close_kill_and_join:
  "filter is_close (concat (map (kill_and_join threads self) is)) = []"
  by (induction "is") (simp_all add: kill_and_join_def)

lemma filter_pthread_kill_and_join:
  "filter is_pthread_call (concat (map (kill_and_join threads self) is)) =
     concat (map (\<lambda>t. [PthreadKill t SIGTERM, PthreadJoin t]) (filter (\<lambda>t. t \<noteq> self) (map threads is)))"
  by (induction "is") (simp_all add: kill_and_join_def)

lemma calls_close_fds:
  "calls (close_fds m) = calls m @ map HostClose (filter (\<lambda>fd. fd \<noteq> - 1) [vcpufd m, vmfd m, kvm m])"
  by (simp add: close_fds_def Let_def)

lemma fds_before_close:
  "vcpufd (dump_klog host (stop_threads self m)) = vcpufd m"
  "vmfd (dump_klog host (stop_threads self m)) = vmfd m"
  "kvm (dump_klog host (stop_threads self m)) = kvm m"
  by (simp_all add: dump_klog_def stop_threads_def Let_def split: option.splits)

text \<open>
  C8 as stated fails: with the vCPU open as descriptor 5, the VM as 4 and
  \<open>/dev/kvm\<close> as 3, the handler closes 5, then 4, then 3: the vCPU before the VM.
\<close>

theorem uhyve_exit_order_counterexample:
  "filter is_close (calls (uhyve_exit (example_host []) 100
       (initial_monitor\<lparr>vcpufd := 5, vmfd := 4, kvm := 3\<rparr>)))
     = [HostClose 5, HostClose 4, HostClose 3]
   \<and> filter is_close (calls (uhyve_exit (example_host []) 100
       (initial_monitor\<lparr>vcpufd := 5, vmfd := 4, kvm := 3\<rparr>)))
     \<noteq> [HostClose 4, HostClose 5, HostClose 3]"
  by (simp add: uhyve_exit_def calls_close_fds fds_before_close dump_klog_def stop_threads_def
      initial_monitor_def example_host_def Let_def)

text \<open>
  C8, amended. The exit handler closes the vCPU descriptor, then the VM
  descriptor, then the KVM descriptor, in that order and each unless it is -1,
  and these are its last calls; before them, when the thread array exists, it
  sends \<open>SIGTERM\<close> to every thread of the array other than itself and joins it,
  thread after thread.
\<close>

theorem uhyve_exit_order:
  "\<exists>before.
     calls (uhyve_exit host self m) =
       calls m @ before @ map HostClose (filter (\<lambda>fd. fd \<noteq> - 1) [vcpufd m, vmfd m, kvm m])
     \<and> filter is_close before = []
     \<and> (\<forall>threads. vcpu_threads m = Some threads \<longrightarrow>
          filter is_pthread_call before =
            concat (map (\<lambda>t. [PthreadKill t SIGTERM, PthreadJoin t])
                      (filter (\<lambda>t. t \<noteq> self) (map threads [0..<unat (ncores m)]))))"
proof -
  let ?sig = "case vcpu_threads m of None \<Rightarrow> []
      | Some threads \<Rightarrow> concat (map (kill_and_join threads self) [0..<unat (ncores m)]) @ [HostFree]"
  let ?dump = "case klog m of None \<Rightarrow> []
      | Some k \<Rightarrow> if getenv host ''HERMIT_VERBOSE'' \<noteq> None \<and> getenv host ''HERMIT_VERBOSE'' \<noteq> Some ''0''
          then [HostPuts ''\<newline>Dump kernel log:'', HostPuts ''================\<newline>'', HostPrintfString k]
          else []"
  have a: "calls (uhyve_exit host self m) =
       calls m @ (?sig @ ?dump) @ map HostClose (filter (\<lambda>fd. fd \<noteq> - 1) [vcpufd m, vmfd m, kvm m])"
    unfolding uhyve_exit_def calls_close_fds fds_before_close
    by (simp add: dump_klog_def stop_threads_def Let_def split: option.splits)
  have b: "filter is_close (?sig @ ?dump) = []"
    by (simp add: filter_is_close_kill_and_join split: option.splits)
  have c: "\<forall>threads. vcpu_threads m = Some threads \<longrightarrow>
          filter is_pthread_call (?sig @ ?dump) =
            concat (map (\<lambda>t. [PthreadKill t SIGTERM, PthreadJoin t])
                      (filter (\<lambda>t. t \<noteq> self) (map threads [0..<unat (ncores m)])))"
    by (simp add: filter_pthread_kill_and_join split: option.splits)
  show ?thesis
    by (rule exI [of _ "?sig @ ?dump"]) (intro conjI a b c)
qed

theorem uhyve_exit_order_witness:
  "\<exists>before.
     calls (uhyve_exit (example_host []) 100
        (initial_monitor\<lparr>ncores := 2, vcpu_threads := Some (\<lambda>i. 100 + of_nat i),
                          vcpufd := 5, vmfd := 4, kvm := 3\<rparr>))
       = before @ [HostClose 5, HostClose 4, HostClose 3]
     \<and> filter is_close before = []
     \<and> filter is_pthread_call before = [PthreadKill 101 SIGTERM, PthreadJoin 101]"
  using uhyve_exit_order [of "example_host []" 100
        "initial_monitor\<lparr>ncores := 2, vcpu_threads := Some (\<lambda>i. 100 + of_nat i),
                          vcpufd := 5, vmfd := 4, kvm := 3\<rparr>"]
  by (simp add: initial_monitor_def upt_conv_Cons)

section \<open>Properties of guest memory\<close>

lemma length_le_bytes [simp]: "length (le_bytes k v) = k"
  by (simp add: le_bytes_def)

lemma le_bytes_Suc: "le_bytes (Suc k) v = of_nat v # le_bytes k (v div 256)"
  unfolding le_bytes_def map_upt_Suc
  by (simp add: div_mult2_eq)

lemma le_value_le_bytes: "le_value (le_bytes k v) = v mod 256 ^ k"
proof (induction k arbitrary: v)
  case 0
  show ?case by (simp add: le_bytes_def)
next
  case (Suc k)
  have "unat (of_nat v :: u8) = v mod 256"
    by (simp add: unat_of_nat)
  then show ?case
    by (simp add: le_bytes_Suc Suc mod_mult2_eq)
qed

lemma nth_le_bytes: "i < k \<Longrightarrow> le_bytes k v ! i = of_nat (v div 256 ^ i)"
  by (simp add: le_bytes_def)

lemma load_bytes_eqI:
  assumes "\<And>k. k < length bs \<Longrightarrow> mem (a + k) = bs ! k"
  shows "load_bytes mem a (length bs) = bs"
  by (rule nth_equalityI) (simp_all add: load_bytes_def assms)

lemma load_u64_eqI:
  assumes "\<And>k. k < 8 \<Longrightarrow> mem (a + k) = le_bytes 8 (unat w) ! k"
  shows "load_u64 mem a = w"
proof -
  have "load_bytes mem a (length (le_bytes 8 (unat w))) = le_bytes 8 (unat w)"
    by (rule load_bytes_eqI) (simp add: assms)
  then have "load_bytes mem a 8 = le_bytes 8 (unat w)"
    by simp
  moreover have "unat w mod 256 ^ 8 = unat w"
    using unsigned_less [of w, where ?'a = nat] by simp
  ultimately show ?thesis
    by (simp add: load_u64_def le_value_le_bytes)
qed


lemma load_u64_zeroI:
  assumes "\<And>k. k < 8 \<Longrightarrow> mem (a + k) = 0"
  shows "load_u64 mem a = 0"
  by (rule load_u64_eqI) (simp add: assms nth_le_bytes)

section \<open>Properties of setup_system_page_tables\<close>


lemma put_u64_Some:
  "a + 8 \<le> unat (guest_size m) \<Longrightarrow>
   put_u64 a w m = Some (m\<lparr>guest_mem := store_bytes (guest_mem m) a (le_bytes 8 (unat w))\<rparr>)"
  by (simp add: put_u64_def put_bytes_def in_guest_def)

lemma pde_loop_entries:
  assumes "unat (guest_size m) = n * GUEST_PAGE_SIZE" and "i \<le> n" and "n \<le> 512" and "0 < n"
  shows "\<exists>m'. pde_loop (i * GUEST_PAGE_SIZE) (BOOT_PDE + 8 * i) m = Some m'
           \<and> guest_size m' = guest_size m \<and> sregs m' = sregs m
           \<and> (\<forall>a. guest_mem m' a =
                 (if BOOT_PDE + 8 * i \<le> a \<and> a < BOOT_PDE + 8 * n
                  then le_bytes 8 (unat (pde_entry ((a - BOOT_PDE) div 8))) ! ((a - BOOT_PDE) mod 8)
                  else guest_mem m a))"
  using assms
proof (induction "n - i" arbitrary: i m)
  case 0
  then have "i = n" by simp
  then have "pde_loop (i * GUEST_PAGE_SIZE) (BOOT_PDE + 8 * i) m = Some m"
    using 0 by (subst pde_loop.simps) simp
  then show ?case using \<open>i = n\<close> by auto
next
  case (Suc k)
  then have lt: "i < n" by simp
  let ?w = "pde_entry i"
  let ?m1 = "m\<lparr>guest_mem := store_bytes (guest_mem m) (BOOT_PDE + 8 * i) (le_bytes 8 (unat ?w))\<rparr>"
  have bound: "BOOT_PDE + 8 * i + 8 \<le> unat (guest_size m)"
    using Suc.prems lt by (simp add: BOOT_PDE_def GUEST_PAGE_SIZE_def)
  have step: "pde_loop (i * GUEST_PAGE_SIZE) (BOOT_PDE + 8 * i) m =
      pde_loop (Suc i * GUEST_PAGE_SIZE) (BOOT_PDE + 8 * Suc i) ?m1"
    using lt Suc.prems put_u64_Some [OF bound, of ?w]
    by (subst pde_loop.simps) (simp add: pde_entry_def GUEST_PAGE_SIZE_def add_ac)
  have "\<exists>m'. pde_loop (Suc i * GUEST_PAGE_SIZE) (BOOT_PDE + 8 * Suc i) ?m1 = Some m'
           \<and> guest_size m' = guest_size ?m1 \<and> sregs m' = sregs ?m1
           \<and> (\<forall>a. guest_mem m' a =
                 (if BOOT_PDE + 8 * Suc i \<le> a \<and> a < BOOT_PDE + 8 * n
                  then le_bytes 8 (unat (pde_entry ((a - BOOT_PDE) div 8))) ! ((a - BOOT_PDE) mod 8)
                  else guest_mem ?m1 a))"
    using Suc.hyps(2) Suc.prems lt by (intro Suc.hyps(1)) simp_all
  then obtain m' where m': "pde_loop (Suc i * GUEST_PAGE_SIZE) (BOOT_PDE + 8 * Suc i) ?m1 = Some m'"
      "guest_size m' = guest_size m" "sregs m' = sregs m"
      "\<And>a. guest_mem m' a =
                 (if BOOT_PDE + 8 * Suc i \<le> a \<and> a < BOOT_PDE + 8 * n
                  then le_bytes 8 (unat (pde_entry ((a - BOOT_PDE) div 8))) ! ((a - BOOT_PDE) mod 8)
                  else guest_mem ?m1 a)"
    by auto
  have "guest_mem m' a =
                 (if BOOT_PDE + 8 * i \<le> a \<and> a < BOOT_PDE + 8 * n
                  then le_bytes 8 (unat (pde_entry ((a - BOOT_PDE) div 8))) ! ((a - BOOT_PDE) mod 8)
                  else guest_mem m a)" for a
  proof (cases "BOOT_PDE + 8 * i \<le> a \<and> a < BOOT_PDE + 8 * Suc i")
    case True
    define r where "r = a - (BOOT_PDE + 8 * i)"
    have "a = BOOT_PDE + 8 * i + r" and "r < 8"
      using True by (auto simp: r_def)
    then have d: "(a - BOOT_PDE) div 8 = i" and r: "(a - BOOT_PDE) mod 8 = a - (BOOT_PDE + 8 * i)"
      by simp_all
    show ?thesis
      using True lt by (simp add: m'(4) store_bytes_def d r)
  next
    case False
    then show ?thesis
      using lt by (auto simp add: m'(4) store_bytes_def)
  qed
  then show ?case
    using step m' by auto
qed

lemmas boot_addresses = BOOT_PML4_def BOOT_PDPTE_def BOOT_PDE_def

lemma page_tables_prefix:
  assumes "0x13000 \<le> unat (guest_size m)"
  shows "Option.bind (Option.bind (Option.bind (Option.bind
                (zero_fill BOOT_PML4 4096 m)
                (zero_fill BOOT_PDPTE 4096))
                (zero_fill BOOT_PDE 4096))
                (put_u64 BOOT_PML4 (of_nat BOOT_PDPTE OR (X86_PDPT_P OR X86_PDPT_RW))))
                (put_u64 BOOT_PDPTE (of_nat BOOT_PDE OR (X86_PDPT_P OR X86_PDPT_RW)))
         = Some (tables_cleared m)"
  using assms
  by (simp add: zero_fill_def put_u64_def put_bytes_def in_guest_def boot_addresses tables_cleared_def)

lemma assertions_hold:
  assumes "GUEST_PAGE_SIZE dvd unat (guest_size m)" and "unat (guest_size m) \<le> 512 * GUEST_PAGE_SIZE"
  shows "guest_size m AND (of_nat GUEST_PAGE_SIZE - 1) = 0"
    and "guest_size m \<le> of_nat (GUEST_PAGE_SIZE * 512)"
proof -
  have "(2 :: nat) ^ 21 dvd unat (guest_size m)"
    using assms(1) by (simp add: GUEST_PAGE_SIZE_def)
  then have "guest_size m AND mask 21 = 0"
    by (simp only: and_mask_dvd_nat)
  moreover have "(of_nat GUEST_PAGE_SIZE - 1 :: u64) = mask 21"
    by (simp add: GUEST_PAGE_SIZE_def mask_eq_decr_exp)
  ultimately show "guest_size m AND (of_nat GUEST_PAGE_SIZE - 1) = 0"
    by simp
  show "guest_size m \<le> of_nat (GUEST_PAGE_SIZE * 512)"
    using assms(2) by (simp add: word_le_nat_alt GUEST_PAGE_SIZE_def)
qed

lemma page_tables_result:
  assumes "GUEST_PAGE_SIZE dvd unat (guest_size m)"
    and "unat (guest_size m) \<le> 512 * GUEST_PAGE_SIZE"
    and "guest_size m \<noteq> 0"
  shows "\<exists>m'. setup_system_page_tables m = (Returns (), m')
     \<and> guest_size m' = guest_size m
     \<and> (\<forall>i<512. load_u64 (guest_mem m') (BOOT_PML4 + 8 * i) =
           (if i = 0 then of_nat BOOT_PDPTE OR (X86_PDPT_P OR X86_PDPT_RW) else 0))
     \<and> (\<forall>i<512. load_u64 (guest_mem m') (BOOT_PDPTE + 8 * i) =
           (if i = 0 then of_nat BOOT_PDE OR (X86_PDPT_P OR X86_PDPT_RW) else 0))
     \<and> (\<forall>i<512. load_u64 (guest_mem m') (BOOT_PDE + 8 * i) =
           (if i * GUEST_PAGE_SIZE < unat (guest_size m)
            then of_nat (i * GUEST_PAGE_SIZE) OR (X86_PDPT_P OR X86_PDPT_RW OR X86_PDPT_PS)
            else 0))
     \<and> cr3 (sregs m') = of_nat BOOT_PML4
     \<and> cr4 (sregs m') = cr4 (sregs m) OR X86_CR4_PAE
     \<and> cr0 (sregs m') = cr0 (sregs m) OR X86_CR0_PG"
proof -
  from assms(1) obtain n where n: "unat (guest_size m) = n * GUEST_PAGE_SIZE"
    by (auto simp: dvd_def mult.commute)
  have "unat (guest_size m) \<noteq> 0"
    using assms(3) by (simp add: unat_eq_0)
  with n have n0: "0 < n"
    by (cases n) simp_all
  have n512: "n \<le> 512"
    using n assms(2) by (simp add: GUEST_PAGE_SIZE_def)
  have big: "0x13000 \<le> unat (guest_size m)"
    using n n0 by (cases n) (simp_all add: GUEST_PAGE_SIZE_def)
  let ?c = "tables_cleared m"
  have gc: "guest_size ?c = guest_size m" and sc: "sregs ?c = sregs m"
    by (simp_all add: tables_cleared_def)
  from pde_loop_entries [of ?c n 0] n n0 n512 gc sc
  obtain m2 where loop: "pde_loop 0 BOOT_PDE ?c = Some m2"
    and g2: "guest_size m2 = guest_size m" and s2: "sregs m2 = sregs m"
    and mem2: "\<And>a. guest_mem m2 a =
                 (if BOOT_PDE \<le> a \<and> a < BOOT_PDE + 8 * n
                  then le_bytes 8 (unat (pde_entry ((a - BOOT_PDE) div 8))) ! ((a - BOOT_PDE) mod 8)
                  else guest_mem ?c a)"
    by auto
  let ?m' = "m2\<lparr>sregs := (sregs m2)\<lparr>cr3 := of_nat BOOT_PML4,
                                      cr4 := cr4 (sregs m2) OR X86_CR4_PAE,
                                      cr0 := cr0 (sregs m2) OR X86_CR0_PG\<rparr>\<rparr>"
  have run: "setup_system_page_tables m = (Returns (), ?m')"
    unfolding setup_system_page_tables_def
    using assertions_hold [OF assms(1,2)] page_tables_prefix [OF big] loop
    by simp
  have pml4: "load_u64 (guest_mem ?m') (BOOT_PML4 + 8 * i) =
           (if i = 0 then of_nat BOOT_PDPTE OR (X86_PDPT_P OR X86_PDPT_RW) else 0)" if "i < 512" for i
  proof (cases "i = 0")
    case True
    show ?thesis
      unfolding True by (rule load_u64_eqI) (simp add: mem2 tables_cleared_def store_bytes_def boot_addresses)
  next
    case False
    have "load_u64 (guest_mem ?m') (BOOT_PML4 + 8 * i) = 0"
      using False that
      by (intro load_u64_zeroI) (simp add: mem2 tables_cleared_def store_bytes_def memset_def boot_addresses)
    then show ?thesis using False by simp
  qed
  have pdpte: "load_u64 (guest_mem ?m') (BOOT_PDPTE + 8 * i) =
           (if i = 0 then of_nat BOOT_PDE OR (X86_PDPT_P OR X86_PDPT_RW) else 0)" if "i < 512" for i
  proof (cases "i = 0")
    case True
    show ?thesis
      unfolding True by (rule load_u64_eqI) (simp add: mem2 tables_cleared_def store_bytes_def boot_addresses)
  next
    case False
    have "load_u64 (guest_mem ?m') (BOOT_PDPTE + 8 * i) = 0"
      using False that
      by (intro load_u64_zeroI) (simp add: mem2 tables_cleared_def store_bytes_def memset_def boot_addresses)
    then show ?thesis using False by simp
  qed
  have pde: "load_u64 (guest_mem ?m') (BOOT_PDE + 8 * i) =
           (if i * GUEST_PAGE_SIZE < unat (guest_size m)
            then of_nat (i * GUEST_PAGE_SIZE) OR (X86_PDPT_P OR X86_PDPT_RW OR X86_PDPT_PS)
            else 0)" if "i < 512" for i
  proof (cases "i < n")
    case True
    have "load_u64 (guest_mem ?m') (BOOT_PDE + 8 * i) = pde_entry i"
      using True by (intro load_u64_eqI) (simp add: mem2)
    moreover have "i * GUEST_PAGE_SIZE < unat (guest_size m)"
      using True n by (simp add: GUEST_PAGE_SIZE_def)
    ultimately show ?thesis by (simp add: pde_entry_def)
  next
    case False
    have "load_u64 (guest_mem ?m') (BOOT_PDE + 8 * i) = 0"
      using False that
      by (intro load_u64_zeroI) (simp add: mem2 tables_cleared_def store_bytes_def memset_def boot_addresses)
    moreover have "\<not> i * GUEST_PAGE_SIZE < unat (guest_size m)"
      using False n by (simp add: GUEST_PAGE_SIZE_def)
    ultimately show ?thesis by simp
  qed
  show ?thesis
    using run pml4 pdpte pde s2 g2 by (intro exI [of _ ?m']) simp
qed

text \<open>
  C9. When \<open>guest_size\<close> is a multiple of 2 MiB and at most 1 GiB (and guest
  memory is mapped, so \<open>guest_size\<close> is not 0: \<open>uhyve_init\<close> stops where \<open>mmap\<close>
  of no bytes fails), page-table setup returns with exactly one PML4 entry at
  0x10000 that points to the PDPTE page at 0x11000, one PDPTE entry that points
  to the PDE page at 0x12000, and one PDE entry for every 2 MiB of
  \<open>[0, guest_size)\<close> that maps \<open>paddr\<close> to \<open>paddr\<close> with the present, writable and
  page-size flags; every other entry of the three pages is zero; and \<open>sregs\<close>
  has CR3 = 0x10000, CR4.PAE set and CR0.PG set.
\<close>

theorem page_tables_identity_map:
  assumes "GUEST_PAGE_SIZE dvd unat (guest_size m)"
    and "unat (guest_size m) \<le> 512 * GUEST_PAGE_SIZE"
    and "guest_size m \<noteq> 0"
  shows "\<exists>m'. setup_system_page_tables m = (Returns (), m')
     \<and> (\<forall>i<512. load_u64 (guest_mem m') (BOOT_PML4 + 8 * i) =
           (if i = 0 then of_nat BOOT_PDPTE OR (X86_PDPT_P OR X86_PDPT_RW) else 0))
     \<and> (\<forall>i<512. load_u64 (guest_mem m') (BOOT_PDPTE + 8 * i) =
           (if i = 0 then of_nat BOOT_PDE OR (X86_PDPT_P OR X86_PDPT_RW) else 0))
     \<and> (\<forall>i<512. load_u64 (guest_mem m') (BOOT_PDE + 8 * i) =
           (if i * GUEST_PAGE_SIZE < unat (guest_size m)
            then of_nat (i * GUEST_PAGE_SIZE) OR (X86_PDPT_P OR X86_PDPT_RW OR X86_PDPT_PS)
            else 0))
     \<and> cr3 (sregs m') = of_nat BOOT_PML4
     \<and> cr4 (sregs m') = cr4 (sregs m) OR X86_CR4_PAE
     \<and> cr0 (sregs m') = cr0 (sregs m) OR X86_CR0_PG"
  using page_tables_result [OF assms] by blast

lemmas flag_bits = X86_PDPT_P_def X86_PDPT_RW_def X86_PDPT_PS_def X86_CR0_PE_def X86_CR0_PG_def
  X86_CR4_PAE_def EFER_LME_def

theorem page_tables_identity_map_witness:
  "GUEST_PAGE_SIZE dvd unat (guest_size initial_monitor)
   \<and> unat (guest_size initial_monitor) \<le> 512 * GUEST_PAGE_SIZE
   \<and> guest_size initial_monitor \<noteq> 0
   \<and> (\<exists>m'. setup_system_page_tables initial_monitor = (Returns (), m')
         \<and> load_u64 (guest_mem m') 0x10000 = 0x11003
         \<and> load_u64 (guest_mem m') 0x10008 = 0
         \<and> load_u64 (guest_mem m') 0x11000 = 0x12003
         \<and> load_u64 (guest_mem m') 0x12000 = 0x83
         \<and> load_u64 (guest_mem m') 0x12008 = 0x200083
         \<and> load_u64 (guest_mem m') 0x127f8 = 0x1fe00083
         \<and> load_u64 (guest_mem m') 0x12800 = 0
         \<and> cr3 (sregs m') = 0x10000 \<and> cr4 (sregs m') = 0x20 \<and> cr0 (sregs m') = 0x80000000)"
proof -
  have h: "GUEST_PAGE_SIZE dvd unat (guest_size initial_monitor)"
    "unat (guest_size initial_monitor) \<le> 512 * GUEST_PAGE_SIZE"
    "guest_size initial_monitor \<noteq> 0"
    by (simp_all add: initial_monitor_def GUEST_PAGE_SIZE_def)
  from page_tables_identity_map [OF h] obtain m' where
    run: "setup_system_page_tables initial_monitor = (Returns (), m')"
    and pml4: "\<And>i. i < 512 \<Longrightarrow> load_u64 (guest_mem m') (BOOT_PML4 + 8 * i) =
           (if i = 0 then of_nat BOOT_PDPTE OR (X86_PDPT_P OR X86_PDPT_RW) else 0)"
    and pdpte: "\<And>i. i < 512 \<Longrightarrow> load_u64 (guest_mem m') (BOOT_PDPTE + 8 * i) =
           (if i = 0 then of_nat BOOT_PDE OR (X86_PDPT_P OR X86_PDPT_RW) else 0)"
    and pde: "\<And>i. i < 512 \<Longrightarrow> load_u64 (guest_mem m') (BOOT_PDE + 8 * i) =
           (if i * GUEST_PAGE_SIZE < unat (guest_size initial_monitor)
            then of_nat (i * GUEST_PAGE_SIZE) OR (X86_PDPT_P OR X86_PDPT_RW OR X86_PDPT_PS)
            else 0)"
    and regs: "cr3 (sregs m') = of_nat BOOT_PML4"
      "cr4 (sregs m') = cr4 (sregs initial_monitor) OR X86_CR4_PAE"
      "cr0 (sregs m') = cr0 (sregs initial_monitor) OR X86_CR0_PG"
    by blast
  have "load_u64 (guest_mem m') 0x10000 = 0x11003" "load_u64 (guest_mem m') 0x10008 = 0"
    using pml4 [of 0] pml4 [of 1] by (simp_all add: boot_addresses flag_bits)
  moreover have "load_u64 (guest_mem m') 0x11000 = 0x12003"
    using pdpte [of 0] by (simp add: boot_addresses flag_bits)
  moreover have "load_u64 (guest_mem m') 0x12000 = 0x83" "load_u64 (guest_mem m') 0x12008 = 0x200083"
    "load_u64 (guest_mem m') 0x127f8 = 0x1fe00083" "load_u64 (guest_mem m') 0x12800 = 0"
    using pde [of 0] pde [of 1] pde [of 255] pde [of 256]
    by (simp_all add: boot_addresses flag_bits initial_monitor_def GUEST_PAGE_SIZE_def)
  moreover have "cr3 (sregs m') = 0x10000" "cr4 (sregs m') = 0x20" "cr0 (sregs m') = 0x80000000"
    using regs by (simp_all add: boot_addresses flag_bits initial_monitor_def zero_sregs_def)
  ultimately show ?thesis
    using h run by (intro conjI exI [of _ m']) simp_all
qed

section \<open>Properties of pread_in_full\<close>

lemma pread_loop_eq:
  "0 \<le> offset \<Longrightarrow>
   pread_loop file count offset buf = Inr (buf @ take count (drop (nat offset) file))"
proof (induction "file" count offset buf rule: pread_loop.induct)
  case (1 f count offset buf)
  show ?case
  proof (cases "0 < count")
    case False
    then show ?thesis by (subst pread_loop.simps) simp
  next
    case True
    let ?xs = "drop (nat offset) f"
    let ?bs = "take count ?xs"
    have rd: "pread f count offset = Inr ?bs"
      using 1(2) by (simp add: pread_def)
    show ?thesis
    proof (cases "?bs = []")
      case True
      with \<open>0 < count\<close> rd show ?thesis by (subst pread_loop.simps) simp
    next
      case False
      have step: "pread_loop f count offset buf =
          pread_loop f (count - length ?bs) (offset + int (length ?bs)) (buf @ ?bs)"
        using \<open>0 < count\<close> rd False by (subst pread_loop.simps) simp
      have rest: "pread_loop f (count - length ?bs) (offset + int (length ?bs)) (buf @ ?bs) =
          Inr ((buf @ ?bs) @ take (count - length ?bs)
                                (drop (nat (offset + int (length ?bs))) f))"
        using 1(2) by (intro 1(1) [OF \<open>0 < count\<close> rd False]) simp
      have off: "nat (offset + int (length ?bs)) = nat offset + length ?bs"
        using 1(2) by (simp add: nat_add_distrib)
      have "?bs @ take (count - length ?bs) (drop (nat offset + length ?bs) f) = ?bs"
        by (cases "count \<le> length ?xs") (simp_all add: min_def)
      then show ?thesis
        unfolding step rest off by simp
    qed
  qed
qed

lemma pread_loop_negative:
  "offset < 0 \<Longrightarrow> 0 < count \<Longrightarrow> pread_loop file count offset buf = Inl EINVAL"
  by (subst pread_loop.simps) (simp add: pread_def)

lemma pread_in_full_eq:
  "pread_in_full file count offset =
     (if SSIZE_MAX < count then Inl E2BIG
      else if count = 0 then Inr []
      else if offset < 0 then Inl EINVAL
      else Inr (take count (drop (nat offset) file)))"
proof -
  have "pread_loop file 0 offset [] = Inr []"
    by (subst pread_loop.simps) simp
  then show ?thesis
    by (simp add: pread_in_full_def pread_loop_eq pread_loop_negative)
qed

section \<open>Properties of load_kernel\<close>

lemma put_bytes_SomeD:
  "put_bytes a bs m = Some m' \<Longrightarrow>
     m' = m\<lparr>guest_mem := store_bytes (guest_mem m) a bs\<rparr> \<and> in_guest m a (length bs)"
  by (simp add: put_bytes_def split: if_splits)

lemma zero_fill_SomeD:
  "zero_fill a n m = Some m' \<Longrightarrow>
     m' = m\<lparr>guest_mem := memset (guest_mem m) a 0 n\<rparr> \<and> in_guest m a n"
  by (simp add: zero_fill_def split: if_splits)

lemma write_boot_info_SomeD:
  assumes "write_boot_info host paddr filesz m = Some m'"
  shows "m' = m\<lparr>guest_mem :=
      store_bytes (store_bytes (store_bytes (store_bytes (store_bytes (store_bytes (store_bytes
        (store_bytes (guest_mem m) (paddr + 0x08) (le_bytes 8 (unat (of_nat paddr :: u64))))
          (paddr + 0x10) (le_bytes 8 (unat (guest_size m))))
          (paddr + 0x18) (le_bytes 4 (unat (get_cpufreq host))))
          (paddr + 0x24) (le_bytes 4 (unat (1 :: u32))))
          (paddr + 0x30) (le_bytes 4 (unat (0 :: u32))))
          (paddr + 0x38) (le_bytes 8 (unat filesz)))
          (paddr + 0x60) (le_bytes 4 (unat (1 :: u32))))
          (paddr + 0x94) (le_bytes 4 (unat (1 :: u32)))\<rparr>"
  using assms
  by (auto simp: write_boot_info_def put_u64_def put_u32_def put_bytes_def in_guest_def
      bind_eq_Some_conv split: if_splits)

lemma in_guest_guest_mem_update [simp]:
  "in_guest (m\<lparr>guest_mem := x\<rparr>) = in_guest m"
  by (simp add: in_guest_def fun_eq_iff)

lemma load_segment_other:
  "p_type ph \<noteq> PT_LOAD \<Longrightarrow> load_segment host file ph m fl = Next m fl"
  by (simp add: load_segment_def Let_def)

lemma load_segment_Next:
  assumes "load_segment host file ph m fl = Next m' fl'" and "p_type ph = PT_LOAD"
  shows "\<exists>bs. pread_in_full file (unat (p_filesz ph)) (sint (p_offset ph)) = Inr bs
     \<and> in_guest m (unat (p_paddr ph)) (length bs)
     \<and> in_guest m (unat (p_paddr ph) + unat (p_filesz ph)) (unat (p_memsz ph - p_filesz ph))
     \<and> fl' = False
     \<and> (let m3 = set_anchors (unat (p_paddr ph))
                      (m\<lparr>guest_mem := memset (store_bytes (guest_mem m) (unat (p_paddr ph)) bs)
                         (unat (p_paddr ph) + unat (p_filesz ph)) 0 (unat (p_memsz ph - p_filesz ph))\<rparr>)
         in if fl then write_boot_info host (unat (p_paddr ph)) (p_filesz ph) m3 = Some m' else m' = m3)"
  using assms
  by (auto simp: load_segment_def Let_def dest!: put_bytes_SomeD zero_fill_SomeD
      split: sum.splits option.splits if_splits)

lemma set_anchors_fields [simp]:
  "guest_mem (set_anchors paddr m) = guest_mem m" "guest_size (set_anchors paddr m) = guest_size m"
  by (simp_all add: set_anchors_def Let_def)

lemma zero_fill_no_wrap:
  assumes "in_guest m (paddr + unat filesz) (unat (memsz - filesz))"
  shows "unat (memsz - filesz :: u64) = unat memsz - unat filesz \<and> unat filesz \<le> unat memsz"
proof (cases "unat filesz \<le> unat memsz")
  case True
  then show ?thesis by (simp add: unat_sub_if_size)
next
  case False
  then have n: "unat (memsz - filesz) = unat memsz + 2 ^ 64 - unat filesz"
    by (simp add: unat_sub_if_size word_size)
  have "unat filesz < 2 ^ 64" "unat (guest_size m) < 2 ^ 64"
    using unsigned_less [of filesz, where ?'a = nat] unsigned_less [of "guest_size m", where ?'a = nat]
    by simp_all
  with n False assms show ?thesis
    by (simp add: in_guest_def)
qed

lemma pread_in_full_length:
  "pread_in_full file count offset = Inr bs \<Longrightarrow> length bs \<le> count"
  by (auto simp: pread_in_full_eq split: if_splits)

lemma nat_sint_nonneg: "0 \<le> sint (w :: u64) \<Longrightarrow> nat (sint w) = unat w"
proof -
  assume a: "0 \<le> sint w"
  have "uint w = take_bit 64 (sint w)"
    by (simp add: uint_sint)
  also have "\<dots> = sint w"
    using a sint_lt [of w] by (intro take_bit_int_eq_self) simp_all
  finally show ?thesis by (simp add: unat_eq_nat_uint)
qed

lemma pread_in_full_file:
  assumes "pread_in_full file (unat filesz) (sint (offset :: u64)) = Inr bs"
    and "unat offset + unat filesz \<le> length file"
  shows "length bs = unat filesz \<and> (\<forall>i < unat filesz. bs ! i = file ! (unat offset + i))"
proof (cases "unat filesz = 0")
  case True
  with assms show ?thesis by (simp add: pread_in_full_eq split: if_splits)
next
  case False
  with assms(1) have "0 \<le> sint offset" and bs: "bs = take (unat filesz) (drop (nat (sint offset)) file)"
    by (auto simp: pread_in_full_eq split: if_splits)
  then show ?thesis
    using assms(2) by (simp add: nat_sint_nonneg)
qed

text \<open>What one round changes, and what it leaves.\<close>

lemma load_segment_frame:
  assumes "load_segment host file ph m fl = Next m' fl'"
  shows "guest_size m' = guest_size m"
    and "guest_mem m' a \<noteq> guest_mem m a \<Longrightarrow>
           p_type ph = PT_LOAD \<and>
           ((unat (p_paddr ph) \<le> a \<and> a < unat (p_paddr ph) + unat (p_memsz ph))
            \<or> (fl \<and> in_boot_info (unat (p_paddr ph)) a))"
    and "fl' = (fl \<and> p_type ph \<noteq> PT_LOAD)"
proof -
  show "guest_size m' = guest_size m"
  proof (cases "p_type ph = PT_LOAD")
    case False
    with assms show ?thesis by (simp add: load_segment_other)
  next
    case True
    from load_segment_Next [OF assms True] show ?thesis
      by (auto simp: Let_def dest!: write_boot_info_SomeD split: if_splits)
  qed
  show "fl' = (fl \<and> p_type ph \<noteq> PT_LOAD)"
  proof (cases "p_type ph = PT_LOAD")
    case False
    with assms show ?thesis by (simp add: load_segment_other)
  next
    case True
    from load_segment_Next [OF assms True] show ?thesis
      using True by auto
  qed
  assume changed: "guest_mem m' a \<noteq> guest_mem m a"
  show "p_type ph = PT_LOAD \<and>
           ((unat (p_paddr ph) \<le> a \<and> a < unat (p_paddr ph) + unat (p_memsz ph))
            \<or> (fl \<and> in_boot_info (unat (p_paddr ph)) a))"
  proof (cases "p_type ph = PT_LOAD")
    case False
    with assms changed show ?thesis by (simp add: load_segment_other)
  next
    case True
    from load_segment_Next [OF assms True]
    obtain bs where rd: "pread_in_full file (unat (p_filesz ph)) (sint (p_offset ph)) = Inr bs"
      and zf: "in_guest m (unat (p_paddr ph) + unat (p_filesz ph)) (unat (p_memsz ph - p_filesz ph))"
      and m': "let m3 = set_anchors (unat (p_paddr ph))
                      (m\<lparr>guest_mem := memset (store_bytes (guest_mem m) (unat (p_paddr ph)) bs)
                         (unat (p_paddr ph) + unat (p_filesz ph)) 0 (unat (p_memsz ph - p_filesz ph))\<rparr>)
         in if fl then write_boot_info host (unat (p_paddr ph)) (p_filesz ph) m3 = Some m' else m' = m3"
      by blast
    note nw = zero_fill_no_wrap [OF zf]
    note len = pread_in_full_length [OF rd]
    show ?thesis
    proof (cases fl)
      case False
      with m' changed nw len True show ?thesis
        by (auto simp: Let_def memset_def store_bytes_def split: if_splits)
    next
      case fl: True
      with m' have "write_boot_info host (unat (p_paddr ph)) (p_filesz ph)
          (set_anchors (unat (p_paddr ph))
                      (m\<lparr>guest_mem := memset (store_bytes (guest_mem m) (unat (p_paddr ph)) bs)
                         (unat (p_paddr ph) + unat (p_filesz ph)) 0 (unat (p_memsz ph - p_filesz ph))\<rparr>)) = Some m'"
        by (simp add: Let_def)
      from write_boot_info_SomeD [OF this] changed nw len True fl show ?thesis
        by (auto simp: memset_def store_bytes_def in_boot_info_def split: if_splits)
    qed
  qed
qed

lemma store_bytes_outside:
  "\<not> (s \<le> a \<and> a < s + length bs) \<Longrightarrow> store_bytes mem s bs a = mem a"
  by (auto simp: store_bytes_def)

lemma write_boot_info_outside:
  assumes "write_boot_info host paddr filesz m = Some m'" and "\<not> in_boot_info paddr a"
  shows "guest_mem m' a = guest_mem m a"
proof -
  have "\<not> (paddr + 0x08 \<le> a \<and> a < paddr + 0x08 + 8)" "\<not> (paddr + 0x10 \<le> a \<and> a < paddr + 0x10 + 8)"
    "\<not> (paddr + 0x18 \<le> a \<and> a < paddr + 0x18 + 4)" "\<not> (paddr + 0x24 \<le> a \<and> a < paddr + 0x24 + 4)"
    "\<not> (paddr + 0x30 \<le> a \<and> a < paddr + 0x30 + 4)" "\<not> (paddr + 0x38 \<le> a \<and> a < paddr + 0x38 + 8)"
    "\<not> (paddr + 0x60 \<le> a \<and> a < paddr + 0x60 + 4)" "\<not> (paddr + 0x94 \<le> a \<and> a < paddr + 0x94 + 4)"
    using assms(2) unfolding in_boot_info_def by linarith+
  then show ?thesis
    unfolding write_boot_info_SomeD [OF assms(1)]
    by (simp add: store_bytes_outside)
qed

lemma load_segment_staged:
  assumes "load_segment host file ph m fl = Next m' fl'" and "p_type ph = PT_LOAD"
    and "unat (p_offset ph) + unat (p_filesz ph) \<le> length file"
    and "\<not> (fl \<and> in_boot_info (unat (p_paddr ph)) a)"
  shows "(unat (p_paddr ph) \<le> a \<and> a < unat (p_paddr ph) + unat (p_filesz ph) \<longrightarrow>
            guest_mem m' a = file ! (unat (p_offset ph) + (a - unat (p_paddr ph))))
       \<and> (unat (p_paddr ph) + unat (p_filesz ph) \<le> a \<and> a < unat (p_paddr ph) + unat (p_memsz ph) \<longrightarrow>
            guest_mem m' a = 0)"
proof -
  from load_segment_Next [OF assms(1,2)]
  obtain bs where rd: "pread_in_full file (unat (p_filesz ph)) (sint (p_offset ph)) = Inr bs"
    and zf: "in_guest m (unat (p_paddr ph) + unat (p_filesz ph)) (unat (p_memsz ph - p_filesz ph))"
    and m': "let m3 = set_anchors (unat (p_paddr ph))
                    (m\<lparr>guest_mem := memset (store_bytes (guest_mem m) (unat (p_paddr ph)) bs)
                       (unat (p_paddr ph) + unat (p_filesz ph)) 0 (unat (p_memsz ph - p_filesz ph))\<rparr>)
       in if fl then write_boot_info host (unat (p_paddr ph)) (p_filesz ph) m3 = Some m' else m' = m3"
    by blast
  note nw = zero_fill_no_wrap [OF zf]
  note bs = pread_in_full_file [OF rd assms(3)]
  let ?staged = "memset (store_bytes (guest_mem m) (unat (p_paddr ph)) bs)
                       (unat (p_paddr ph) + unat (p_filesz ph)) 0 (unat (p_memsz ph - p_filesz ph))"
  have "guest_mem m' a = ?staged a"
  proof (cases fl)
    case False
    with m' show ?thesis by (simp add: Let_def)
  next
    case True
    with m' have "write_boot_info host (unat (p_paddr ph)) (p_filesz ph)
        (set_anchors (unat (p_paddr ph)) (m\<lparr>guest_mem := ?staged\<rparr>)) = Some m'"
      by (simp add: Let_def)
    from write_boot_info_outside [OF this] True assms(4) show ?thesis
      by simp
  qed
  moreover have "?staged a = file ! (unat (p_offset ph) + (a - unat (p_paddr ph)))"
    if r: "unat (p_paddr ph) \<le> a \<and> a < unat (p_paddr ph) + unat (p_filesz ph)"
  proof -
    from r have "a - unat (p_paddr ph) < unat (p_filesz ph)" by linarith
    with bs have "bs ! (a - unat (p_paddr ph)) = file ! (unat (p_offset ph) + (a - unat (p_paddr ph)))"
      by blast
    moreover have "?staged a = bs ! (a - unat (p_paddr ph))"
      using r bs by (auto simp: memset_def store_bytes_def)
    ultimately show ?thesis by simp
  qed
  moreover have "?staged a = 0"
    if "unat (p_paddr ph) + unat (p_filesz ph) \<le> a \<and> a < unat (p_paddr ph) + unat (p_memsz ph)"
    using that nw by (auto simp: memset_def)
  ultimately show ?thesis by auto
qed

lemma load_segments_frame:
  assumes "load_segments host file (map Some phs) m False = Next m' fl'"
    and "\<And>j. j < length phs \<Longrightarrow> p_type (phs ! j) = PT_LOAD \<Longrightarrow>
           \<not> (unat (p_paddr (phs ! j)) \<le> a \<and> a < unat (p_paddr (phs ! j)) + unat (p_memsz (phs ! j)))"
  shows "guest_mem m' a = guest_mem m a"
  using assms
proof (induction phs arbitrary: m)
  case Nil
  then show ?case by simp
next
  case (Cons ph phs)
  from Cons.prems(1) obtain m1 fl1 where r: "load_segment host file ph m False = Next m1 fl1"
    and rest: "load_segments host file (map Some phs) m1 fl1 = Next m' fl'"
    by (auto split: loaded.splits)
  from load_segment_frame(3) [OF r] have fl1: "fl1 = False" by simp
  have "guest_mem m1 a = guest_mem m a"
    using load_segment_frame(2) [OF r, of a] Cons.prems(2) [of 0] by auto
  moreover have "guest_mem m' a = guest_mem m1 a"
    using rest fl1 Cons.prems(2) [of "Suc j" for j] by (intro Cons.IH) auto
  ultimately show ?case by simp
qed

lemma store_bytes_inside:
  "s \<le> a \<Longrightarrow> a < s + length bs \<Longrightarrow> store_bytes mem s bs a = bs ! (a - s)"
  by (simp add: store_bytes_def)


lemma example_image_length: "length example_image = 124"
  by (simp add: example_image_def example_ehdr_def example_phdr_def)

lemma example_header_read:
  "pread_in_full example_image 64 0 = Inr example_ehdr"
  by (simp add: pread_in_full_eq SSIZE_MAX_def example_image_def example_ehdr_def)

lemma example_header:
  "decode_ehdr (read_into host 64 example_ehdr) =
     \<lparr>e_ident = [0x7f, 0x45, 0x4c, 0x46, 0x02, 0x01, 0x01, 0xff, 0, 0, 0, 0, 0, 0, 0, 0],
      e_type = 2, e_machine = 62, e_version = 1, e_entry = 0x200078, e_phoff = 0x40, e_shoff = 0,
      e_flags = 0, e_ehsize = 0x40, e_phentsize = 0x38, e_phnum = 1, e_shentsize = 0x40,
      e_shnum = 0, e_shstrndx = 0\<rparr>"
  by (simp add: decode_ehdr_def read_into_def field_def example_ehdr_def)

lemma example_table_read:
  "pread_in_full example_image 56 64 = Inr example_phdr"
  by (simp add: pread_in_full_eq SSIZE_MAX_def example_image_def example_ehdr_def example_phdr_def)

lemma example_phdr_decoded:
  "phdr_at (read_into host 56 example_phdr) 0 = Some example_program_header"
  by (simp add: phdr_at_def decode_phdr_def read_into_def field_def example_phdr_def
      example_program_header_def)

lemma example_lengths [simp]: "length example_ehdr = 64" "length example_phdr = 56"
  by (simp_all add: example_ehdr_def example_phdr_def)

lemmas example_eval =
  example_host_def initial_monitor_def example_header_read example_header example_table_read
  example_phdr_decoded example_program_header_def not_hermit_file_def EI_MAG0_def EI_MAG1_def EI_MAG2_def EI_MAG3_def
  EI_CLASS_def EI_OSABI_def ELFMAG0_def ELFMAG1_def ELFMAG2_def ELFMAG3_def ELFCLASS64_def
  HERMIT_ELFOSABI_def ET_EXEC_def EM_X86_64_def PT_LOAD_def

lemma example_segment_read:
  "pread_in_full example_image 124 0 = Inr example_image"
  by (simp add: pread_in_full_eq SSIZE_MAX_def example_image_length)

lemma example_load_kernel:
  "load_kernel (example_host example_image) ''kernel'' initial_monitor =
     (Returns 0,
      initial_monitor
        \<lparr>guest_mem :=
           store_bytes (store_bytes (store_bytes (store_bytes (store_bytes (store_bytes (store_bytes
             (store_bytes (memset (store_bytes (\<lambda>_. 0) 0x200000 example_image) 0x20007c 0 0xf84)
               0x200008 (le_bytes 8 0x200000))
               0x200010 (le_bytes 8 0x20000000))
               0x200018 (le_bytes 4 2400))
               0x200024 (le_bytes 4 1))
               0x200030 (le_bytes 4 0))
               0x200038 (le_bytes 8 124))
               0x200060 (le_bytes 4 1))
               0x200094 (le_bytes 4 1),
         klog := Some 0x205000, mboot := Some 0x200000, elf_entry := 0x200078,
         calls := [HostOpen ''kernel'', HostFree, HostCloseFile]\<rparr>)"
  by (simp add: load_kernel_def example_eval Let_def word_sless_alt upt_conv_Cons
      load_segment_def example_segment_read put_bytes_def zero_fill_def in_guest_def
      example_image_length set_anchors_def write_boot_info_def put_u64_def put_u32_def emit_def
      out_def)

text \<open>
  C4 as stated fails on the first \<open>PT_LOAD\<close> segment: \<open>example_image\<close> is accepted, its
  one program header loads the file from offset 0 to 0x200000, and after
  \<open>load_kernel\<close> has returned the byte at \<open>p_paddr + 0x24\<close> is 1, the low byte of
  the boot-info field written there, while the file has 0 at offset 0x24.
\<close>

theorem load_kernel_segment_counterexample:
  "fst (load_kernel (example_host example_image) ''kernel'' initial_monitor) = Returns 0
   \<and> guest_mem (snd (load_kernel (example_host example_image) ''kernel'' initial_monitor)) (0x200000 + 0x24)
       \<noteq> example_image ! (0 + 0x24)"
proof -
  have "example_image ! (0 + 0x24) = 0"
    by (simp add: example_image_def example_ehdr_def)
  moreover have "guest_mem (snd (load_kernel (example_host example_image) ''kernel'' initial_monitor))
      (0x200000 + 0x24) = 1"
    by (simp add: example_load_kernel store_bytes_def le_bytes_def)
  ultimately show ?thesis
    by (simp add: example_load_kernel)
qed

lemma load_segments_staged:
  assumes "load_segments host file (map Some phs) m fl = Next m' fl'"
    and "i < length phs" and "p_type (phs ! i) = PT_LOAD"
    and "unat (p_offset (phs ! i)) + unat (p_filesz (phs ! i)) \<le> length file"
    and "\<And>j. i < j \<Longrightarrow> j < length phs \<Longrightarrow> p_type (phs ! j) = PT_LOAD \<Longrightarrow>
           \<not> (unat (p_paddr (phs ! j)) \<le> a \<and> a < unat (p_paddr (phs ! j)) + unat (p_memsz (phs ! j)))"
    and "fl \<and> (\<forall>k<i. p_type (phs ! k) \<noteq> PT_LOAD) \<longrightarrow> \<not> in_boot_info (unat (p_paddr (phs ! i))) a"
  shows "(unat (p_paddr (phs ! i)) \<le> a \<and> a < unat (p_paddr (phs ! i)) + unat (p_filesz (phs ! i)) \<longrightarrow>
            guest_mem m' a = file ! (unat (p_offset (phs ! i)) + (a - unat (p_paddr (phs ! i)))))
       \<and> (unat (p_paddr (phs ! i)) + unat (p_filesz (phs ! i)) \<le> a
            \<and> a < unat (p_paddr (phs ! i)) + unat (p_memsz (phs ! i)) \<longrightarrow>
            guest_mem m' a = 0)"
  using assms
proof (induction phs arbitrary: i m fl)
  case Nil
  then show ?case by simp
next
  case (Cons ph phs)
  from Cons.prems(1) obtain m1 fl1 where r: "load_segment host file ph m fl = Next m1 fl1"
    and rest: "load_segments host file (map Some phs) m1 fl1 = Next m' fl'"
    by (auto split: loaded.splits)
  note flag = load_segment_frame(3) [OF r]
  show ?case
  proof (cases i)
    case 0
    then have load: "p_type ph = PT_LOAD"
      and has: "unat (p_offset ph) + unat (p_filesz ph) \<le> length file"
      and boot: "\<not> (fl \<and> in_boot_info (unat (p_paddr ph)) a)"
      using Cons.prems(3,4,6) by simp_all
    have later: "guest_mem m' a = guest_mem m1 a"
    proof (rule load_segments_frame)
      show "load_segments host file (map Some phs) m1 False = Next m' fl'"
        using rest flag load by simp
      show "\<not> (unat (p_paddr (phs ! j)) \<le> a \<and> a < unat (p_paddr (phs ! j)) + unat (p_memsz (phs ! j)))"
        if "j < length phs" "p_type (phs ! j) = PT_LOAD" for j
        using Cons.prems(5) [of "Suc j"] that 0 by simp
    qed
    show ?thesis
      using load_segment_staged [OF r load has boot] later 0 by simp
  next
    case (Suc i')
    have "(unat (p_paddr (phs ! i')) \<le> a \<and> a < unat (p_paddr (phs ! i')) + unat (p_filesz (phs ! i')) \<longrightarrow>
            guest_mem m' a = file ! (unat (p_offset (phs ! i')) + (a - unat (p_paddr (phs ! i')))))
       \<and> (unat (p_paddr (phs ! i')) + unat (p_filesz (phs ! i')) \<le> a
            \<and> a < unat (p_paddr (phs ! i')) + unat (p_memsz (phs ! i')) \<longrightarrow>
            guest_mem m' a = 0)"
    proof (rule Cons.IH [OF rest])
      show "i' < length phs" "p_type (phs ! i') = PT_LOAD"
        "unat (p_offset (phs ! i')) + unat (p_filesz (phs ! i')) \<le> length file"
        using Cons.prems(2,3,4) Suc by simp_all
      show "\<not> (unat (p_paddr (phs ! j)) \<le> a \<and> a < unat (p_paddr (phs ! j)) + unat (p_memsz (phs ! j)))"
        if "i' < j" "j < length phs" "p_type (phs ! j) = PT_LOAD" for j
        using Cons.prems(5) [of "Suc j"] that Suc by simp
      show "fl1 \<and> (\<forall>k<i'. p_type (phs ! k) \<noteq> PT_LOAD) \<longrightarrow> \<not> in_boot_info (unat (p_paddr (phs ! i'))) a"
      proof (intro impI, elim conjE)
        assume fl1: fl1 and none: "\<forall>k<i'. p_type (phs ! k) \<noteq> PT_LOAD"
        from fl1 flag have "fl" and "p_type ph \<noteq> PT_LOAD" by simp_all
        moreover have "\<forall>k<i. p_type ((ph # phs) ! k) \<noteq> PT_LOAD"
        proof (intro allI impI)
          fix k assume "k < i"
          then show "p_type ((ph # phs) ! k) \<noteq> PT_LOAD"
            using none \<open>p_type ph \<noteq> PT_LOAD\<close> Suc by (cases k) simp_all
        qed
        ultimately show "\<not> in_boot_info (unat (p_paddr (phs ! i'))) a"
          using Cons.prems(6) Suc by simp
      qed
    qed
    then show ?thesis using Suc by simp
  qed
qed

text \<open>
  From the loop to \<open>load_kernel\<close>. When the header and the table lie in the file,
  both reads are complete and the loop runs over the headers \<open>file_phdr file i\<close>.
\<close>

lemma field_drop_take:
  "k + off + n \<le> len \<Longrightarrow> field (drop k (take len buf)) off n = field (drop k buf) off n"
  by (simp add: field_def drop_take min_def)

lemma decode_phdr_table:
  assumes "56 * i + 56 \<le> len"
  shows "decode_phdr (drop (56 * i) (take len (drop off file))) = decode_phdr (drop (off + 56 * i) file)"
proof -
  have "field (drop (56 * i) (take len (drop off file))) o1 n = field (drop (off + 56 * i) file) o1 n"
    if "o1 + n \<le> 56" for o1 n
  proof -
    have "field (drop (56 * i) (take len (drop off file))) o1 n = field (drop (56 * i) (drop off file)) o1 n"
      using that assms by (intro field_drop_take) simp
    then show ?thesis by (simp add: add.commute)
  qed
  then show ?thesis
    by (simp add: decode_phdr_def)
qed

lemma table_length:
  "unat (scast (ucast (56 :: u16) * ucast (n :: u16) :: s32) :: u64) = 56 * unat n"
proof -
  have n: "unat n < 65536"
    using unsigned_less [of n, where ?'a = nat] by simp
  have "(ucast (56 :: u16) * ucast n :: s32) = of_nat (56 * unat n)"
    by simp
  moreover have "sint (of_nat (56 * unat n) :: s32) = int (56 * unat n)"
  proof -
    have "signed_take_bit 31 (int (56 * unat n)) = int (56 * unat n)"
    proof (intro signed_take_bit_int_eq_self)
      show "- (2 ^ 31) \<le> int (56 * unat n)"
        by (rule order_trans [of _ 0]) simp_all
      show "int (56 * unat n) < 2 ^ 31"
        using unsigned_less [of n, where ?'a = int] by simp
    qed
    then show ?thesis
      unfolding signed_of_nat by simp
  qed
  ultimately have "(scast (ucast (56 :: u16) * ucast n :: s32) :: u64) = of_nat (56 * unat n)"
    by (simp add: scast_eq)
  then show ?thesis
    using n by (simp only: unat_of_nat) simp
qed

lemma not_sless_zero:
  "n < 2 ^ 31 \<Longrightarrow> \<not> (of_nat n :: s32) <s 0"
  by (simp add: word_sless_alt signed_of_nat signed_take_bit_int_eq_self)

lemma read_into_full: "length bs = n \<Longrightarrow> read_into host n bs = bs"
  by (simp add: read_into_def)

lemma sint_in_file:
  assumes "unat (w :: u64) \<le> n" and "n < 2 ^ 63"
  shows "0 \<le> sint w" and "nat (sint w) = unat w"
proof -
  have "int (unat w) \<le> int n"
    using assms(1) by (simp only: of_nat_le_iff)
  moreover have "int n < 2 ^ 63"
    using assms(2) by simp
  ultimately have lt: "uint w < 2 ^ 63"
    by simp
  have "sint w = signed_take_bit 63 (uint w)"
    by (simp add: sint_uint)
  also have "\<dots> = uint w"
  proof (intro signed_take_bit_int_eq_self)
    show "- (2 ^ 63) \<le> uint w"
      by (rule order_trans [of _ 0]) simp_all
    show "uint w < 2 ^ 63"
      by (fact lt)
  qed
  finally have eq: "sint w = uint w" .
  show "0 \<le> sint w"
    unfolding eq by simp
  then show "nat (sint w) = unat w"
    by (rule nat_sint_nonneg)
qed

lemma load_kernel_loop:
  assumes "open_file host path = Some file"
    and "64 \<le> length file" and "length file < 2 ^ 63"
    and "\<not> not_hermit_file (file_ehdr file)"
    and "e_phentsize (file_ehdr file) = 56"
    and "malloc_ok host (56 * unat (e_phnum (file_ehdr file)))"
    and "unat (e_phoff (file_ehdr file)) + 56 * unat (e_phnum (file_ehdr file)) \<le> length file"
  shows "load_kernel host path m =
     (case load_segments host file
             (map Some (map (file_phdr file) [0..<unat (e_phnum (file_ehdr file))]))
             ((emit [HostOpen path] m)\<lparr>elf_entry := e_entry (file_ehdr file)\<rparr>) True of
        Next m2 first_load \<Rightarrow> out True m2
      | GotoOut m2 \<Rightarrow> out True m2
      | Faulted \<Rightarrow> (Faults, (emit [HostOpen path] m)\<lparr>elf_entry := e_entry (file_ehdr file)\<rparr>))"
proof -
  let ?hdr = "file_ehdr file"
  let ?n = "unat (e_phnum ?hdr)"
  let ?table = "take (56 * ?n) (drop (unat (e_phoff ?hdr)) file)"
  have rd: "pread_in_full file 64 0 = Inr (take 64 file)"
    by (simp add: pread_in_full_eq SSIZE_MAX_def)
  have l64: "length (take 64 file) = 64"
    using assms(2) by simp
  have neg64: "\<not> (of_nat (length (take 64 file)) :: s32) <s 0"
    unfolding l64 by (simp add: word_sless_alt)
  have hdr: "decode_ehdr (read_into host 64 (take 64 file)) = ?hdr"
    by (simp add: read_into_full [OF l64] file_ehdr_def)
  have buflen: "unat (scast (ucast (e_phentsize ?hdr) * ucast (e_phnum ?hdr) :: s32) :: u64) = 56 * ?n"
    unfolding assms(5) by (rule table_length)
  have n: "?n < 65536"
    using unsigned_less [of "e_phnum ?hdr", where ?'a = nat] by simp
  have off: "0 \<le> sint (e_phoff ?hdr)" "nat (sint (e_phoff ?hdr)) = unat (e_phoff ?hdr)"
    using sint_in_file [of "e_phoff ?hdr" "length file"] assms(3,7) by simp_all
  have rdt: "pread_in_full file (56 * ?n) (sint (e_phoff ?hdr)) = Inr ?table"
    using n off by (simp add: pread_in_full_eq SSIZE_MAX_def)
  have lt: "length ?table = 56 * ?n"
    using assms(7) by simp
  have negt: "\<not> (of_nat (length ?table) :: s32) <s 0"
    unfolding lt using n by (intro not_sless_zero) simp
  have tab: "read_into host (56 * ?n) ?table = ?table"
    by (rule read_into_full [OF lt])
  have phs: "map (phdr_at ?table) [0..<?n] = map Some (map (file_phdr file) [0..<?n])"
  proof -
    have "phdr_at ?table i = Some (file_phdr file i)" if "i < ?n" for i
    proof -
      from that have le: "56 * i + 56 \<le> 56 * ?n" by simp
      then have "56 * i + 48 \<le> length ?table"
        unfolding lt by simp
      then have "phdr_at ?table i = Some (decode_phdr (drop (56 * i) ?table))"
        by (simp only: phdr_at_def if_True)
      then show ?thesis
        by (simp only: decode_phdr_table [OF le] file_phdr_def)
    qed
    then show ?thesis by simp
  qed
  show ?thesis
    unfolding load_kernel_def assms(1) option.case Let_def rd sum.case hdr buflen
    using assms(4,6) neg64 negt by (simp only: if_False if_True rdt sum.case tab phs not_True_eq_False not_False_eq_True simp_thms)
qed

text \<open>
  With every \<open>PT_LOAD\<close> range in the file and shorter than \<open>2^31\<close> bytes no round
  takes \<open>goto out\<close>, so a call that returns has run the loop to its end.
\<close>

lemma load_segment_no_goto:
  assumes "length file < 2 ^ 63"
    and "p_type ph = PT_LOAD \<longrightarrow>
           unat (p_offset ph) + unat (p_filesz ph) \<le> length file \<and> unat (p_filesz ph) < 2 ^ 31"
  shows "load_segment host file ph m fl \<noteq> GotoOut m'"
proof (cases "p_type ph = PT_LOAD")
  case False
  then show ?thesis by (simp add: load_segment_other)
next
  case True
  with assms(2) have inf: "unat (p_offset ph) + unat (p_filesz ph) \<le> length file"
    and small: "unat (p_filesz ph) < 2 ^ 31"
    by simp_all
  have off: "0 \<le> sint (p_offset ph)"
    using sint_in_file(1) [of "p_offset ph" "length file"] inf assms(1) by simp
  have rd: "pread_in_full file (unat (p_filesz ph)) (sint (p_offset ph)) =
      Inr (take (unat (p_filesz ph)) (drop (nat (sint (p_offset ph))) file))"
    using small off by (simp add: pread_in_full_eq SSIZE_MAX_def)
  have "length (take (unat (p_filesz ph)) (drop (nat (sint (p_offset ph))) file)) < 2 ^ 31"
    using small by simp
  then have neg: "\<not> (of_nat (length (take (unat (p_filesz ph)) (drop (nat (sint (p_offset ph))) file))) :: s32) <s 0"
    by (rule not_sless_zero)
  show ?thesis
    unfolding load_segment_def Let_def rd sum.case
    using True neg by (simp split: option.splits)
qed

lemma load_segments_no_goto:
  assumes "length file < 2 ^ 63"
    and "\<And>j. j < length phs \<Longrightarrow> p_type (phs ! j) = PT_LOAD \<Longrightarrow>
           unat (p_offset (phs ! j)) + unat (p_filesz (phs ! j)) \<le> length file
           \<and> unat (p_filesz (phs ! j)) < 2 ^ 31"
  shows "load_segments host file (map Some phs) m fl \<noteq> GotoOut m'"
  using assms(2)
proof (induction phs arbitrary: m fl)
  case Nil
  then show ?case by simp
next
  case (Cons ph phs)
  have first: "load_segment host file ph m fl \<noteq> GotoOut m2" for m2
    using Cons.prems [of 0] by (intro load_segment_no_goto [OF assms(1)]) simp
  have rest: "load_segments host file (map Some phs) m1 fl1 \<noteq> GotoOut m'" for m1 fl1
    using Cons.prems [of "Suc j" for j] by (intro Cons.IH) simp
  show ?case
    using first rest by (simp split: loaded.splits)
qed

lemma load_kernel_returned:
  assumes "open_file host path = Some file"
    and "64 \<le> length file" and "length file < 2 ^ 63"
    and "\<not> not_hermit_file (file_ehdr file)"
    and "e_phentsize (file_ehdr file) = 56"
    and "malloc_ok host (56 * unat (e_phnum (file_ehdr file)))"
    and "unat (e_phoff (file_ehdr file)) + 56 * unat (e_phnum (file_ehdr file)) \<le> length file"
    and "\<forall>j < unat (e_phnum (file_ehdr file)). p_type (file_phdr file j) = PT_LOAD \<longrightarrow>
           unat (p_offset (file_phdr file j)) + unat (p_filesz (file_phdr file j)) \<le> length file
           \<and> unat (p_filesz (file_phdr file j)) < 2 ^ 31"
    and "load_kernel host path m = (Returns 0, m')"
  shows "\<exists>m1 m2 fl. load_segments host file
             (map Some (map (file_phdr file) [0..<unat (e_phnum (file_ehdr file))])) m1 True = Next m2 fl
           \<and> guest_mem m1 = guest_mem m \<and> guest_size m1 = guest_size m
           \<and> guest_mem m' = guest_mem m2"
proof -
  let ?phs = "map (file_phdr file) [0..<unat (e_phnum (file_ehdr file))]"
  let ?m1 = "(emit [HostOpen path] m)\<lparr>elf_entry := e_entry (file_ehdr file)\<rparr>"
  note loop = load_kernel_loop [OF assms(1-7), of m]
  have no_goto: "load_segments host file (map Some ?phs) ?m1 True \<noteq> GotoOut m2" for m2
    using assms(8) by (intro load_segments_no_goto [OF assms(3)]) simp_all
  show ?thesis
  proof (cases "load_segments host file (map Some ?phs) ?m1 True")
    case (Next m2 fl)
    with loop assms(9) have "m' = emit [HostFree, HostCloseFile] m2"
      by (simp add: out_def)
    then have "guest_mem m' = guest_mem m2"
      by simp
    moreover have "guest_mem ?m1 = guest_mem m" "guest_size ?m1 = guest_size m"
      by simp_all
    ultimately show ?thesis
      using Next by blast
  next
    case (GotoOut m2)
    with no_goto show ?thesis by simp
  next
    case Faulted
    with loop assms(9) show ?thesis by simp
  qed
qed







text \<open>The image with three program headers.\<close>

lemma three_header_lengths [simp]:
  "length three_header_ehdr = 64" "length three_header_table = 168" "length three_header_code = 48"
  by (simp_all add: three_header_ehdr_def three_header_table_def three_header_code_def)

lemma three_header_image_length: "length three_header_image = 280"
  by (simp add: three_header_image_def)

lemma three_header_file_ehdr:
  "file_ehdr three_header_image =
     \<lparr>e_ident = [0x7f, 0x45, 0x4c, 0x46, 0x02, 0x01, 0x01, 0xff, 0, 0, 0, 0, 0, 0, 0, 0],
      e_type = 2, e_machine = 62, e_version = 1, e_entry = 0x400000, e_phoff = 0x40, e_shoff = 0,
      e_flags = 0, e_ehsize = 0x40, e_phentsize = 0x38, e_phnum = 3, e_shentsize = 0x40,
      e_shnum = 0, e_shstrndx = 0\<rparr>"
  by (simp add: file_ehdr_def three_header_image_def decode_ehdr_def field_def three_header_ehdr_def)

lemma three_header_file_phdr:
  "file_phdr three_header_image 0 =
     \<lparr>p_type = 4, p_flags = 4, p_offset = 0, p_vaddr = 0, p_paddr = 0,
      p_filesz = 0, p_memsz = 0, p_align = 4\<rparr>"
  "file_phdr three_header_image 1 =
     \<lparr>p_type = 1, p_flags = 6, p_offset = 0, p_vaddr = 0x200000, p_paddr = 0x200000,
      p_filesz = 0xe8, p_memsz = 0x1000, p_align = 0x200000\<rparr>"
  "file_phdr three_header_image 2 =
     \<lparr>p_type = 1, p_flags = 5, p_offset = 0xe8, p_vaddr = 0x400000, p_paddr = 0x400000,
      p_filesz = 0x30, p_memsz = 0x100, p_align = 0x200000\<rparr>"
proof -
  have d: "drop (64 + k) three_header_image = drop k (three_header_table @ three_header_code)" for k
    by (simp add: three_header_image_def)
  show "file_phdr three_header_image 0 =
     \<lparr>p_type = 4, p_flags = 4, p_offset = 0, p_vaddr = 0, p_paddr = 0,
      p_filesz = 0, p_memsz = 0, p_align = 4\<rparr>"
    unfolding file_phdr_def three_header_file_ehdr
    using d [of 0] by (simp add: decode_phdr_def field_def three_header_table_def)
  show "file_phdr three_header_image 1 =
     \<lparr>p_type = 1, p_flags = 6, p_offset = 0, p_vaddr = 0x200000, p_paddr = 0x200000,
      p_filesz = 0xe8, p_memsz = 0x1000, p_align = 0x200000\<rparr>"
    unfolding file_phdr_def three_header_file_ehdr
    using d [of 56] by (simp add: decode_phdr_def field_def three_header_table_def)
  show "file_phdr three_header_image 2 =
     \<lparr>p_type = 1, p_flags = 5, p_offset = 0xe8, p_vaddr = 0x400000, p_paddr = 0x400000,
      p_filesz = 0x30, p_memsz = 0x100, p_align = 0x200000\<rparr>"
    unfolding file_phdr_def three_header_file_ehdr
    using d [of 112] by (simp add: decode_phdr_def field_def three_header_table_def)
qed

lemma upt_3: "[0..<3] = [0, 1, 2 :: nat]"
  by (simp add: upt_conv_Cons)

lemma less_3_cases: "j < (3 :: nat) \<Longrightarrow> j = 0 \<or> j = 1 \<or> j = 2"
  by arith

lemmas three_header_phdrs = three_header_file_phdr three_header_file_phdr(2) [unfolded One_nat_def]

lemma three_header_reads:
  "pread_in_full three_header_image 232 0 = Inr (three_header_ehdr @ three_header_table)"
  "pread_in_full three_header_image 48 232 = Inr three_header_code"
  by (simp_all add: pread_in_full_eq SSIZE_MAX_def three_header_image_def)

lemma three_header_accepted:
  "open_file (example_host three_header_image) ''kernel'' = Some three_header_image"
  "64 \<le> length three_header_image" "length three_header_image < 2 ^ 63"
  "\<not> not_hermit_file (file_ehdr three_header_image)"
  "e_phentsize (file_ehdr three_header_image) = 56"
  "malloc_ok (example_host three_header_image) (56 * unat (e_phnum (file_ehdr three_header_image)))"
  "unat (e_phoff (file_ehdr three_header_image)) + 56 * unat (e_phnum (file_ehdr three_header_image))
     \<le> length three_header_image"
  by (simp_all add: example_host_def three_header_image_length three_header_file_ehdr
      not_hermit_file_def EI_MAG0_def EI_MAG1_def EI_MAG2_def EI_MAG3_def
      EI_CLASS_def EI_OSABI_def ELFMAG0_def ELFMAG1_def ELFMAG2_def ELFMAG3_def ELFCLASS64_def
      HERMIT_ELFOSABI_def ET_EXEC_def EM_X86_64_def)

lemma three_header_segments:
  "\<forall>j < unat (e_phnum (file_ehdr three_header_image)).
     p_type (file_phdr three_header_image j) = PT_LOAD \<longrightarrow>
       unat (p_offset (file_phdr three_header_image j)) + unat (p_filesz (file_phdr three_header_image j))
         \<le> length three_header_image
       \<and> unat (p_filesz (file_phdr three_header_image j)) < 2 ^ 31"
proof (intro allI impI)
  fix j assume "j < unat (e_phnum (file_ehdr three_header_image))"
  then have "j < 3"
    by (simp add: three_header_file_ehdr)
  then have "j = 0 \<or> j = 1 \<or> j = 2"
    by (rule less_3_cases)
  moreover assume "p_type (file_phdr three_header_image j) = PT_LOAD"
  ultimately show "unat (p_offset (file_phdr three_header_image j)) + unat (p_filesz (file_phdr three_header_image j))
         \<le> length three_header_image
       \<and> unat (p_filesz (file_phdr three_header_image j)) < 2 ^ 31"
    by (auto simp: three_header_phdrs three_header_image_length PT_LOAD_def)
qed

lemma three_header_loaded:
  "\<exists>m'. load_kernel (example_host three_header_image) ''kernel'' initial_monitor = (Returns 0, m')"
  unfolding load_kernel_loop [OF three_header_accepted]
  by (simp add: three_header_file_ehdr upt_3 three_header_phdrs load_segment_def PT_LOAD_def
      three_header_reads put_bytes_def zero_fill_def in_guest_def initial_monitor_def emit_def
      set_anchors_def write_boot_info_def put_u64_def put_u32_def Let_def word_sless_alt out_def)

lemma three_header_later:
  "1 < j \<Longrightarrow> j < unat (e_phnum (file_ehdr three_header_image)) \<Longrightarrow> j = 2"
  "\<not> (2 < j \<and> j < unat (e_phnum (file_ehdr three_header_image)))"
  by (simp_all add: three_header_file_ehdr)

lemma three_header_first:
  "p_type (file_phdr three_header_image 1) = PT_LOAD"
  "p_type (file_phdr three_header_image 2) = PT_LOAD"
  "\<forall>k<1. p_type (file_phdr three_header_image k) \<noteq> PT_LOAD"
  "\<exists>k<2. p_type (file_phdr three_header_image k) = PT_LOAD"
proof -
  show l: "p_type (file_phdr three_header_image 1) = PT_LOAD"
    "p_type (file_phdr three_header_image 2) = PT_LOAD"
    by (simp_all add: three_header_phdrs PT_LOAD_def)
  show "\<forall>k<1. p_type (file_phdr three_header_image k) \<noteq> PT_LOAD"
    by (simp add: three_header_phdrs PT_LOAD_def)
  have "(1 :: nat) < 2" by simp
  with l(1) show "\<exists>k<2. p_type (file_phdr three_header_image k) = PT_LOAD"
    by blast
qed

text \<open>
  C4, amended. Let \<open>load_kernel\<close> open a file of less than \<open>2^63\<close> bytes whose
  header it accepts, with \<open>e_phentsize\<close> = 56 = \<open>sizeof(Elf64_Phdr)\<close>, the program
  header table inside the file and memory granted for it, and with the file range
  \<open>[p_offset, p_offset + p_filesz)\<close> of every \<open>PT_LOAD\<close> header inside the file and
  shorter than \<open>2^31\<close> bytes. Let \<open>load_kernel\<close> return, so that no access left guest
  memory, and let the program header \<open>i\<close> be of type \<open>PT_LOAD\<close>. Then in the guest
  memory that \<open>load_kernel\<close> returns, every byte at an address \<open>a\<close> in
  \<open>[p_paddr, p_paddr + p_filesz)\<close> is the file byte at \<open>p_offset + (a - p_paddr)\<close>
  and every byte in \<open>[p_paddr + p_filesz, p_paddr + p_memsz)\<close> is zero, unless \<open>a\<close>
  lies in the range \<open>[p_paddr, p_paddr + p_memsz)\<close> of a later \<open>PT_LOAD\<close> header or,
  when \<open>i\<close> is the first \<open>PT_LOAD\<close> header, in one of its boot-info fields.
\<close>

theorem load_kernel_file_bytes:
  assumes "open_file host path = Some file"
    and "64 \<le> length file" and "length file < 2 ^ 63"
    and "\<not> not_hermit_file (file_ehdr file)"
    and "e_phentsize (file_ehdr file) = 56"
    and "malloc_ok host (56 * unat (e_phnum (file_ehdr file)))"
    and "unat (e_phoff (file_ehdr file)) + 56 * unat (e_phnum (file_ehdr file)) \<le> length file"
    and "\<forall>j < unat (e_phnum (file_ehdr file)). p_type (file_phdr file j) = PT_LOAD \<longrightarrow>
           unat (p_offset (file_phdr file j)) + unat (p_filesz (file_phdr file j)) \<le> length file
           \<and> unat (p_filesz (file_phdr file j)) < 2 ^ 31"
    and "load_kernel host path m = (Returns 0, m')"
    and "i < unat (e_phnum (file_ehdr file))" and "p_type (file_phdr file i) = PT_LOAD"
    and "\<forall>j. i < j \<and> j < unat (e_phnum (file_ehdr file)) \<and> p_type (file_phdr file j) = PT_LOAD \<longrightarrow>
           \<not> (unat (p_paddr (file_phdr file j)) \<le> a
              \<and> a < unat (p_paddr (file_phdr file j)) + unat (p_memsz (file_phdr file j)))"
    and "(\<forall>k<i. p_type (file_phdr file k) \<noteq> PT_LOAD) \<longrightarrow>
           \<not> in_boot_info (unat (p_paddr (file_phdr file i))) a"
  shows "(unat (p_paddr (file_phdr file i)) \<le> a
            \<and> a < unat (p_paddr (file_phdr file i)) + unat (p_filesz (file_phdr file i)) \<longrightarrow>
            guest_mem m' a =
              file ! (unat (p_offset (file_phdr file i)) + (a - unat (p_paddr (file_phdr file i)))))
       \<and> (unat (p_paddr (file_phdr file i)) + unat (p_filesz (file_phdr file i)) \<le> a
            \<and> a < unat (p_paddr (file_phdr file i)) + unat (p_memsz (file_phdr file i)) \<longrightarrow>
            guest_mem m' a = 0)"
proof -
  define n where "n = unat (e_phnum (file_ehdr file))"
  define phs where "phs = map (file_phdr file) [0..<n]"
  have len: "length phs = n"
    by (simp add: phs_def)
  have nth: "phs ! j = file_phdr file j" if "j < n" for j
    using that by (simp add: phs_def)
  from load_kernel_returned [OF assms(1-9)]
  obtain m1 m2 fl where loop: "load_segments host file (map Some phs) m1 True = Next m2 fl"
    and mem: "guest_mem m' = guest_mem m2"
    unfolding phs_def n_def by blast
  have i: "i < length phs"
    using assms(10) by (simp add: len n_def)
  have "(unat (p_paddr (phs ! i)) \<le> a \<and> a < unat (p_paddr (phs ! i)) + unat (p_filesz (phs ! i)) \<longrightarrow>
            guest_mem m2 a = file ! (unat (p_offset (phs ! i)) + (a - unat (p_paddr (phs ! i)))))
       \<and> (unat (p_paddr (phs ! i)) + unat (p_filesz (phs ! i)) \<le> a
            \<and> a < unat (p_paddr (phs ! i)) + unat (p_memsz (phs ! i)) \<longrightarrow>
            guest_mem m2 a = 0)"
  proof (rule load_segments_staged [OF loop i])
    show "p_type (phs ! i) = PT_LOAD"
      using assms(10,11) by (simp add: nth n_def)
    show "unat (p_offset (phs ! i)) + unat (p_filesz (phs ! i)) \<le> length file"
      using assms(8,10,11) by (simp add: nth n_def)
    show "\<not> (unat (p_paddr (phs ! j)) \<le> a \<and> a < unat (p_paddr (phs ! j)) + unat (p_memsz (phs ! j)))"
      if "i < j" "j < length phs" "p_type (phs ! j) = PT_LOAD" for j
      using assms(12) that by (simp add: nth len n_def)
    show "True \<and> (\<forall>k<i. p_type (phs ! k) \<noteq> PT_LOAD) \<longrightarrow> \<not> in_boot_info (unat (p_paddr (phs ! i))) a"
      using assms(10,13) by (simp add: nth n_def)
  qed
  then show ?thesis
    using assms(10) by (simp add: nth n_def mem)
qed

theorem load_kernel_file_bytes_witness:
  "\<exists>m'. load_kernel (example_host three_header_image) ''kernel'' initial_monitor = (Returns 0, m')
        \<and> guest_mem m' 0x200040 = three_header_image ! 0x40
        \<and> guest_mem m' 0x400024 = three_header_image ! (0xe8 + 0x24)
        \<and> guest_mem m' 0x400094 = 0"
proof -
  let ?ph = "file_phdr three_header_image"
  let ?n = "unat (e_phnum (file_ehdr three_header_image))"
  from three_header_loaded obtain m' where
    r: "load_kernel (example_host three_header_image) ''kernel'' initial_monitor = (Returns 0, m')"
    by blast
  have i1: "1 < ?n" and i2: "2 < ?n"
    by (simp_all add: three_header_file_ehdr)
  have later1: "\<forall>j. 1 < j \<and> j < ?n \<and> p_type (?ph j) = PT_LOAD \<longrightarrow>
      \<not> (unat (p_paddr (?ph j)) \<le> 0x200040 \<and> 0x200040 < unat (p_paddr (?ph j)) + unat (p_memsz (?ph j)))"
  proof (intro allI impI, elim conjE)
    fix j assume "1 < j" "j < ?n"
    then have "j = 2"
      by (rule three_header_later(1))
    then show "\<not> (unat (p_paddr (?ph j)) \<le> 0x200040
        \<and> 0x200040 < unat (p_paddr (?ph j)) + unat (p_memsz (?ph j)))"
      by (simp add: three_header_phdrs)
  qed
  have later2: "\<forall>j. 2 < j \<and> j < ?n \<and> p_type (?ph j) = PT_LOAD \<longrightarrow>
      \<not> (unat (p_paddr (?ph j)) \<le> a \<and> a < unat (p_paddr (?ph j)) + unat (p_memsz (?ph j)))" for a
    using three_header_later(2) by blast
  have boot1: "(\<forall>k<1. p_type (?ph k) \<noteq> PT_LOAD) \<longrightarrow> \<not> in_boot_info (unat (p_paddr (?ph 1))) 0x200040"
    by (simp add: three_header_phdrs in_boot_info_def)
  have boot2: "(\<forall>k<2. p_type (?ph k) \<noteq> PT_LOAD) \<longrightarrow> \<not> in_boot_info (unat (p_paddr (?ph 2))) a" for a
    using three_header_first(4) by blast
  have "guest_mem m' 0x200040 = three_header_image ! 0x40"
    using load_kernel_file_bytes [where i = 1 and a = "0x200040",
        OF three_header_accepted three_header_segments r i1 three_header_first(1) later1 boot1]
    by (simp add: three_header_phdrs)
  moreover have "guest_mem m' 0x400024 = three_header_image ! (0xe8 + 0x24)"
    using load_kernel_file_bytes [where i = 2 and a = "0x400024",
        OF three_header_accepted three_header_segments r i2 three_header_first(2) later2 boot2]
    by (simp add: three_header_phdrs)
  moreover have "guest_mem m' 0x400094 = 0"
    using load_kernel_file_bytes [where i = 2 and a = "0x400094",
        OF three_header_accepted three_header_segments r i2 three_header_first(2) later2 boot2]
    by (simp add: three_header_phdrs)
  ultimately show ?thesis
    using r by blast
qed



section \<open>Properties of uhyve_init\<close>

text \<open>No function of the monitor changes \<open>guest_size\<close> after it is parsed.\<close>

lemma guest_size_and_then:
  assumes "guest_size (snd x) = g"
    and "\<And>a m1. guest_size m1 = g \<Longrightarrow> guest_size (snd (f a m1)) = g"
  shows "guest_size (snd (and_then x f)) = g"
  using assms by (cases x; cases "fst x") (auto simp: and_then_def)

lemma guest_size_kvm_ioctl [simp]: "guest_size (snd (kvm_ioctl host cmd m)) = guest_size m"
  by (simp add: kvm_ioctl_def Let_def)

lemma guest_size_put_bytes: "put_bytes a bs m = Some m' \<Longrightarrow> guest_size m' = guest_size m"
  by (auto dest: put_bytes_SomeD)

lemma guest_size_put_u64: "put_u64 a w m = Some m' \<Longrightarrow> guest_size m' = guest_size m"
  by (auto simp: put_u64_def dest: put_bytes_SomeD)

lemma guest_size_put_u32: "put_u32 a w m = Some m' \<Longrightarrow> guest_size m' = guest_size m"
  by (auto simp: put_u32_def dest: put_bytes_SomeD)

lemma guest_size_zero_fill: "zero_fill a n m = Some m' \<Longrightarrow> guest_size m' = guest_size m"
  by (auto dest: zero_fill_SomeD)

lemma guest_size_load_segment:
  "load_segment host file ph m fl = GotoOut m' \<Longrightarrow> guest_size m' = guest_size m"
  by (auto simp: load_segment_def Let_def dest!: put_bytes_SomeD
      split: if_splits sum.splits option.splits)

lemma guest_size_load_segments:
  "load_segments host file phs m fl = Next m' fl' \<or> load_segments host file phs m fl = GotoOut m'
     \<Longrightarrow> guest_size m' = guest_size m"
proof (induction host "file" phs m fl rule: load_segments.induct)
  case (1 host f m first_load)
  then show ?case by simp
next
  case (2 host f phs m first_load)
  then show ?case by simp
next
  case (3 host f ph phs m first_load)
  show ?case
  proof (cases "load_segment host f ph m first_load")
    case (Next m1 fl1)
    with 3 load_segment_frame(1) [OF Next] show ?thesis by simp
  next
    case (GotoOut m1)
    with 3 guest_size_load_segment [OF GotoOut] show ?thesis by auto
  next
    case Faulted
    with 3 show ?thesis by simp
  qed
qed

lemma guest_size_out [simp]: "guest_size (snd (out b m)) = guest_size m"
  by (simp add: out_def)

lemma guest_size_load_kernel [simp]: "guest_size (snd (load_kernel host path m)) = guest_size m"
proof -
  have "guest_size (snd (case load_segments host f phs m1 True of
                          Next m2 first_load \<Rightarrow> out True m2 | GotoOut m2 \<Rightarrow> out True m2
                          | Faulted \<Rightarrow> (Faults, m1))) = guest_size m"
    if "guest_size m1 = guest_size m" for f phs m1
    using that guest_size_load_segments [of host f phs m1 True]
    by (auto split: loaded.splits)
  then show ?thesis
    by (simp add: load_kernel_def Let_def split: option.splits sum.splits)
qed

lemma guest_size_pde_loop:
  "pde_loop paddr pde m = Some m' \<Longrightarrow> guest_size m' = guest_size m"
proof (induction paddr pde m rule: pde_loop.induct)
  case (1 paddr pde m)
  show ?case
  proof (cases "paddr < unat (guest_size m)")
    case False
    with 1(2) show ?thesis by (subst (asm) pde_loop.simps) simp
  next
    case True
    with 1(2) obtain m1 where
      p: "put_u64 pde (of_nat paddr OR (X86_PDPT_P OR X86_PDPT_RW OR X86_PDPT_PS)) m = Some m1"
      and l: "pde_loop (paddr + GUEST_PAGE_SIZE) (pde + 8) m1 = Some m'"
      by (subst (asm) pde_loop.simps) (auto split: option.splits)
    from 1(1) [OF True p l] guest_size_put_u64 [OF p] show ?thesis by simp
  qed
qed

lemma guest_size_page_tables [simp]:
  "guest_size (snd (setup_system_page_tables m)) = guest_size m"
  by (auto simp: setup_system_page_tables_def bind_eq_Some_conv
      dest!: guest_size_pde_loop guest_size_put_u64 guest_size_zero_fill split: option.splits)

lemma guest_size_gdt [simp]:
  "guest_size (snd (setup_system_gdt host off m)) = guest_size m"
  by (auto simp: setup_system_gdt_def bind_eq_Some_conv Let_def
      dest!: guest_size_put_u64 split: option.splits)

lemma guest_size_setup_system [simp]:
  "guest_size (snd (setup_system host idn m)) = guest_size m"
  unfolding setup_system_def
  by (intro guest_size_and_then) (simp_all add: guest_size_and_then)

lemma guest_size_setup_cpuid [simp]:
  "guest_size (snd (setup_cpuid host m)) = guest_size m"
  unfolding setup_cpuid_def
  by (intro guest_size_and_then) simp_all

lemma guest_size_vcpu_init [simp]:
  "guest_size (snd (vcpu_init host idn m)) = guest_size m"
proof -
  have "guest_size (snd (
      and_then (kvm_ioctl host (KVM_CREATE_VCPU idn) m1) (\<lambda>fd m2.
                 and_then (setup_system host idn (m2\<lparr>vcpufd := fd\<rparr>)) (\<lambda>_ m3.
                 and_then (kvm_ioctl host
                             (KVM_SET_REGS \<lparr>rip = elf_entry m3, rax = 2, rbx = 2, rdx = 0, rflags = 0x2\<rparr>)
                             m3) (\<lambda>_ m4.
                 and_then (kvm_ioctl host KVM_GET_VCPU_MMAP_SIZE m4) (\<lambda>mmap_size m5.
                   if unat (scast mmap_size :: u64) < sizeof_kvm_run host then (Exits 1, m5)
                   else if \<not> mmap_run host then (Exits 1, emit [HostMmapRun] m5)
                   else and_then (setup_cpuid host (emit [HostMmapRun] m5)) (\<lambda>_ m6.
                          (Returns 0, m6)))))))) = guest_size m"
    if "guest_size m1 = guest_size m" for m1
    using that by (intro guest_size_and_then) (auto intro!: guest_size_and_then)
  then show ?thesis
    by (auto simp: vcpu_init_def dest: guest_size_put_u32 split: option.splits)
qed

lemma guest_size_uhyve_init:
  "guest_size (snd (uhyve_init host path m)) = parsed_guest_size host m"
  unfolding uhyve_init_def Let_def
  by (auto simp: parsed_guest_size_def intro!: guest_size_and_then split: option.splits)

lemma and_then_Returns:
  "and_then x f = (Returns r, m') \<Longrightarrow> \<exists>a m1. x = (Returns a, m1) \<and> f a m1 = (Returns r, m')"
  by (cases x; cases "fst x") (auto simp: and_then_def)

lemma uhyve_init_asserted:
  assumes "uhyve_init host path m = (Returns r, m')"
  shows "parsed_guest_size host m < KVM_32BIT_GAP_SIZE"
proof (rule ccontr)
  assume "\<not> parsed_guest_size host m < KVM_32BIT_GAP_SIZE"
  then have "fst (uhyve_init host path m) \<noteq> Returns r"
    unfolding uhyve_init_def Let_def
    by (auto simp: parsed_guest_size_def and_then_def kvm_ioctl_def Let_def split: option.splits)
  with assms show False by simp
qed

text \<open>
  C2. Whenever \<open>uhyve_init\<close> returns, \<open>guest_size\<close> (the default or the value parsed
  from \<open>HERMIT_MEM\<close>) is below 0xC0000000; and with a \<open>guest_size\<close> at or above
  0xC0000000 \<open>uhyve_init\<close> does not return, so no guest is run. The assertion of
  the code compares with \<open>KVM_32BIT_GAP_SIZE\<close>, which is 0x30000000, so the bound
  that a completed initialisation meets is that tighter one.
\<close>

theorem uhyve_init_guest_size_bound:
  "(uhyve_init host path m = (Returns r, m') \<longrightarrow>
      guest_size m' = parsed_guest_size host m \<and> guest_size m' < KVM_32BIT_GAP_SIZE
      \<and> guest_size m' < 0xC0000000)
   \<and> (\<not> parsed_guest_size host m < 0xC0000000 \<longrightarrow> fst (uhyve_init host path m) \<noteq> Returns r)"
proof -
  have gap: "KVM_32BIT_GAP_SIZE = 0x30000000"
    by (simp add: KVM_32BIT_GAP_SIZE_def)
  have 1: "guest_size m' = parsed_guest_size host m \<and> guest_size m' < KVM_32BIT_GAP_SIZE
      \<and> guest_size m' < 0xC0000000"
    if run: "uhyve_init host path m = (Returns r, m')" for r m'
  proof -
    have "guest_size m' = parsed_guest_size host m"
      using guest_size_uhyve_init [of host path m] run by simp
    moreover have "parsed_guest_size host m < 0x30000000"
      using uhyve_init_asserted [OF run] gap by simp
    then have "parsed_guest_size host m < 0xC0000000"
      by (rule less_trans) simp
    ultimately show ?thesis using uhyve_init_asserted [OF run] by simp
  qed
  have 2: "fst (uhyve_init host path m) \<noteq> Returns r"
    if big: "\<not> parsed_guest_size host m < 0xC0000000"
  proof
    assume "fst (uhyve_init host path m) = Returns r"
    then have "uhyve_init host path m = (Returns r, snd (uhyve_init host path m))"
      by (metis prod.collapse)
    from 1 [OF this] big show False by auto
  qed
  from 1 2 show ?thesis by blast
qed

lemma kvm_ioctl_ok:
  "ioctl_ret host cmd \<noteq> - 1 \<Longrightarrow>
     kvm_ioctl host cmd m = (Returns (ioctl_ret host cmd), emit [HostIoctl cmd] m)"
  by (simp add: kvm_ioctl_def Let_def)

lemma and_then_Returns_eq [simp]: "and_then (Returns a, m) f = f a m"
  by (simp add: and_then_def)

lemma setup_system_gdt_returns:
  assumes "off + 24 \<le> unat (guest_size m)"
  shows "\<exists>m'. setup_system_gdt host off m = (Returns (), m') \<and> guest_size m' = guest_size m"
  using assms
  by (simp add: setup_system_gdt_def put_u64_def put_bytes_def in_guest_def Let_def
      BOOT_GDT_NULL_def BOOT_GDT_CODE_def BOOT_GDT_DATA_def)

lemma setup_system_boot_returns:
  assumes "GUEST_PAGE_SIZE dvd unat (guest_size m)" and "unat (guest_size m) \<le> 512 * GUEST_PAGE_SIZE"
    and "guest_size m \<noteq> 0" and "\<And>cmd. ioctl_ret host cmd \<noteq> - 1"
  shows "\<exists>m'. setup_system host 0 m = (Returns (), m') \<and> guest_size m' = guest_size m"
proof -
  let ?m1 = "(emit [HostIoctl KVM_GET_SREGS] m)\<lparr>sregs := host_sregs host\<rparr>"
  have "unat (guest_size m) \<noteq> 0"
    using assms(3) by (simp add: unat_eq_0)
  with assms(1) have "GUEST_PAGE_SIZE \<le> unat (guest_size m)"
    by (auto simp: dvd_def)
  then have "BOOT_GDT + 24 \<le> unat (guest_size ?m1)"
    by (simp add: BOOT_GDT_def GUEST_PAGE_SIZE_def)
  from setup_system_gdt_returns [OF this, of host] obtain m2 where
    gdt: "setup_system_gdt host BOOT_GDT ?m1 = (Returns (), m2)" and g2: "guest_size m2 = guest_size m"
    by auto
  from page_tables_result [of m2] assms(1-3) g2 obtain m3 where
    pt: "setup_system_page_tables m2 = (Returns (), m3)" and g3: "guest_size m3 = guest_size m"
    by auto
  show ?thesis
    using gdt pt g3 assms(4)
    by (simp add: setup_system_def kvm_ioctl_ok)
qed

lemma word_not_less_zero: "\<not> (w :: u32) < 0"
  by simp

lemma vcpu_init_boot_returns:
  assumes "mboot m = Some mb" and "mb + 0x34 \<le> unat (guest_size m)"
    and "GUEST_PAGE_SIZE dvd unat (guest_size m)" and "unat (guest_size m) \<le> 512 * GUEST_PAGE_SIZE"
    and "guest_size m \<noteq> 0" and "\<And>cmd. ioctl_ret host cmd \<noteq> - 1"
    and "sizeof_kvm_run host \<le> unat (scast (ioctl_ret host KVM_GET_VCPU_MMAP_SIZE) :: u64)"
    and "mmap_run host"
  shows "\<exists>m'. vcpu_init host 0 m = (Returns 0, m')"
proof -
  let ?m1 = "m\<lparr>guest_mem := store_bytes (guest_mem m) (mb + 0x30) (le_bytes 4 (unat (0 :: u32)))\<rparr>"
  let ?m2 = "(emit [HostIoctl (KVM_CREATE_VCPU 0)] ?m1)\<lparr>vcpufd := ioctl_ret host (KVM_CREATE_VCPU 0)\<rparr>"
  have put: "put_u32 (mb + 0x30) 0 m = Some ?m1"
    using assms(2) by (simp add: put_u32_def put_bytes_def in_guest_def)
  have "\<exists>m'. setup_system host 0 ?m2 = (Returns (), m') \<and> guest_size m' = guest_size ?m2"
    using assms(3-6) by (intro setup_system_boot_returns) simp_all
  then obtain m3 where sys: "setup_system host 0 ?m2 = (Returns (), m3)"
    by auto
  show ?thesis
    using assms(1,2,6,7,8) put sys
    by (simp add: vcpu_init_def in_guest_def kvm_ioctl_ok setup_cpuid_def)
qed

lemma uhyve_init_reaches_load:
  assumes "\<not> open_kvm host <s 0" and "ioctl_ret host KVM_GET_API_VERSION = 12"
    and "ioctl_ret host KVM_CREATE_VM \<noteq> - 1"
    and "parsed_guest_size host m < KVM_32BIT_GAP_SIZE" and "parsed_guest_size host m \<noteq> 0"
    and "mmap_guest host"
  shows "uhyve_init host path m =
     and_then (load_kernel host path (before_load host m)) (\<lambda>ret m8.
       if ret \<noteq> 0 then (Exits EXIT_FAILURE, m8)
       else
         and_then (kvm_ioctl host
                     (KVM_SET_USER_MEMORY_REGION
                        \<lparr>region_slot = 0,
                         region_guest_phys_addr = GUEST_OFFSET,
                         region_memory_size = guest_size m8\<rparr>) m8) (\<lambda>_ m9.
         and_then (kvm_ioctl host KVM_CREATE_IRQCHIP m9) (\<lambda>_ m10.
           vcpu_init host 0 m10)))"
  using assms
  by (simp add: uhyve_init_def before_load_def Let_def kvm_ioctl_def
      parsed_guest_size_def split: option.splits)

lemma before_load_fields [simp]:
  "guest_size (before_load host m) = parsed_guest_size host m"
  "mboot (before_load host m) = mboot m" "klog (before_load host m) = klog m"
  "calls (before_load host m) =
     calls m @ [HostSignal SIGTERM, HostAtexit, HostOpen ''/dev/kvm'', HostIoctl KVM_GET_API_VERSION,
                HostIoctl KVM_CREATE_VM, HostMmap (parsed_guest_size host m)]"
  by (simp_all add: before_load_def Let_def parsed_guest_size_def emit_def split: option.splits)

lemma example_load_kernel_any:
  assumes "guest_size m = 0x20000000" and "mboot m = None"
  shows "\<exists>m'. load_kernel (example_host example_image) ''kernel'' m = (Returns 0, m')
           \<and> guest_size m' = 0x20000000 \<and> mboot m' = Some 0x200000"
  using assms
  by (simp add: load_kernel_def example_host_def example_header_read example_header
      example_table_read example_phdr_decoded example_program_header_def not_hermit_file_def
      EI_MAG0_def EI_MAG1_def EI_MAG2_def EI_MAG3_def EI_CLASS_def EI_OSABI_def ELFMAG0_def
      ELFMAG1_def ELFMAG2_def ELFMAG3_def ELFCLASS64_def HERMIT_ELFOSABI_def ET_EXEC_def
      EM_X86_64_def PT_LOAD_def Let_def word_sless_alt upt_conv_Cons
      load_segment_def example_segment_read put_bytes_def zero_fill_def in_guest_def
      example_image_length set_anchors_def write_boot_info_def put_u64_def put_u32_def out_def)

lemma example_host_answers:
  "\<not> open_kvm (example_host f) <s 0" "ioctl_ret (example_host f) KVM_GET_API_VERSION = 12"
  "ioctl_ret (example_host f) cmd \<noteq> - 1" "mmap_guest (example_host f)" "mmap_run (example_host f)"
  "sizeof_kvm_run (example_host f) \<le> unat (scast (ioctl_ret (example_host f) KVM_GET_VCPU_MMAP_SIZE) :: u64)"
  "parsed_guest_size (example_host f) initial_monitor = 0x20000000"
  by (simp_all add: example_host_def example_ioctl_def word_sless_alt parsed_guest_size_def
      initial_monitor_def split: kvm_cmd.splits)

theorem uhyve_init_guest_size_bound_witness:
  "(\<exists>m'. uhyve_init (example_host example_image) ''kernel'' initial_monitor = (Returns 0, m')
         \<and> guest_size m' = 0x20000000 \<and> guest_size m' < 0xC0000000)
   \<and> \<not> parsed_guest_size ((example_host example_image)\<lparr>getenv := (\<lambda>_. Some ''3G'')\<rparr>) initial_monitor
         < 0xC0000000
   \<and> fst (uhyve_init ((example_host example_image)\<lparr>getenv := (\<lambda>_. Some ''3G'')\<rparr>) ''kernel''
           initial_monitor) \<noteq> Returns 0"
proof -
  let ?h = "example_host example_image"
  let ?b = "before_load ?h initial_monitor"
  have reach: "uhyve_init ?h ''kernel'' initial_monitor =
     and_then (load_kernel ?h ''kernel'' ?b) (\<lambda>ret m8.
       if ret \<noteq> 0 then (Exits EXIT_FAILURE, m8)
       else
         and_then (kvm_ioctl ?h
                     (KVM_SET_USER_MEMORY_REGION
                        \<lparr>region_slot = 0,
                         region_guest_phys_addr = GUEST_OFFSET,
                         region_memory_size = guest_size m8\<rparr>) m8) (\<lambda>_ m9.
         and_then (kvm_ioctl ?h KVM_CREATE_IRQCHIP m9) (\<lambda>_ m10.
           vcpu_init ?h 0 m10)))"
    by (rule uhyve_init_reaches_load)
      (simp_all add: example_host_answers KVM_32BIT_GAP_SIZE_def)
  have "guest_size ?b = 0x20000000" "mboot ?b = None"
    by (simp_all add: example_host_answers) (simp add: initial_monitor_def)
  from example_load_kernel_any [OF this] obtain m8 where
    lk: "load_kernel ?h ''kernel'' ?b = (Returns 0, m8)"
    and g8: "guest_size m8 = 0x20000000" and b8: "mboot m8 = Some 0x200000"
    by auto
  let ?m10 = "emit [HostIoctl KVM_CREATE_IRQCHIP]
      (emit [HostIoctl (KVM_SET_USER_MEMORY_REGION
                        \<lparr>region_slot = 0,
                         region_guest_phys_addr = GUEST_OFFSET,
                         region_memory_size = guest_size m8\<rparr>)] m8)"
  have "\<exists>m'. vcpu_init ?h 0 ?m10 = (Returns 0, m')"
    using g8 b8
    by (intro vcpu_init_boot_returns [where mb = "0x200000"])
      (simp_all add: example_host_answers GUEST_PAGE_SIZE_def)
  then obtain m' where vi: "vcpu_init ?h 0 ?m10 = (Returns 0, m')"
    by auto
  have run: "uhyve_init ?h ''kernel'' initial_monitor = (Returns 0, m')"
    unfolding reach lk using vi by (simp add: kvm_ioctl_ok example_host_answers)
  have big: "\<not> parsed_guest_size (?h\<lparr>getenv := (\<lambda>_. Some ''3G'')\<rparr>) initial_monitor < 0xC0000000"
    by (simp add: parsed_guest_size_def memparse_def strtoull_eval case_labels)
  show ?thesis
    using uhyve_init_guest_size_bound [of ?h "''kernel''" initial_monitor 0 m']
      uhyve_init_guest_size_bound [of "?h\<lparr>getenv := (\<lambda>_. Some ''3G'')\<rparr>" "''kernel''" initial_monitor 0 m']
      run big
    by (auto simp: example_host_answers)
qed

lemma load_kernel_invalid:
  assumes "open_file host path = Some file"
    and "not_hermit_file (decode_ehdr (read_into host 64 (take 64 file)))"
  shows "load_kernel host path m =
     (Returns 0, emit [HostOpen path, HostStderr ''Inavlide HermitCore file!\<newline>'', HostCloseFile] m)"
proof -
  have "pread_in_full file 64 0 = Inr (take 64 file)"
    by (simp add: pread_in_full_eq SSIZE_MAX_def)
  moreover have "\<not> (of_nat (length (take 64 file)) :: s32) <s 0"
  proof -
    have "length (take 64 file) \<le> 64" by simp
    then have "signed_take_bit 31 (int (length (take 64 file))) = int (length (take 64 file))"
      by (intro signed_take_bit_int_eq_self) simp_all
    then have "sint (of_nat (length (take 64 file)) :: s32) = int (length (take 64 file))"
      by (simp only: signed_of_nat) simp
    then show ?thesis by (simp add: word_sless_alt)
  qed
  ultimately show ?thesis
    using assms by (simp add: load_kernel_def Let_def out_def emit_def)
qed

lemma bad_machine_header:
  "e_machine (decode_ehdr (read_into host 64 (take 64 bad_machine_image))) = 3"
  "not_hermit_file (decode_ehdr (read_into host 64 (take 64 bad_machine_image)))"
  by (simp_all add: not_hermit_file_def decode_ehdr_def read_into_def field_def
      bad_machine_image_def example_image_def example_ehdr_def EM_X86_64_def)

lemma initial_monitor_fields [simp]:
  "mboot initial_monitor = None" "klog initial_monitor = None" "calls initial_monitor = []"
  "guest_size initial_monitor = 0x20000000"
  by (simp_all add: initial_monitor_def)

text \<open>
  C1 asks that an image which fails validation makes \<open>uhyve_init\<close> exit with
  \<open>EXIT_FAILURE\<close>. On \<open>bad_machine_image\<close>, whose \<open>e_machine\<close> is 3, \<open>load_kernel\<close>
  reports the invalid file and returns 0 all the same, so \<open>uhyve_init\<close> does not
  exit: after the message it registers the memory region and creates the
  interrupt controller, and \<open>vcpu_init\<close> then reads through \<open>mboot\<close>, which is
  still \<open>NULL\<close>. The VM had been created before the image was opened.
\<close>

theorem uhyve_init_bad_machine_proceeds:
  "e_machine (decode_ehdr (take 64 bad_machine_image)) = 3
   \<and> fst (load_kernel (example_host bad_machine_image) ''kernel''
           (before_load (example_host bad_machine_image) initial_monitor)) = Returns 0
   \<and> fst (uhyve_init (example_host bad_machine_image) ''kernel'' initial_monitor) = Faults
   \<and> fst (uhyve_init (example_host bad_machine_image) ''kernel'' initial_monitor) \<noteq> Exits EXIT_FAILURE
   \<and> calls (snd (uhyve_init (example_host bad_machine_image) ''kernel'' initial_monitor)) =
       [HostSignal SIGTERM, HostAtexit, HostOpen ''/dev/kvm'', HostIoctl KVM_GET_API_VERSION,
        HostIoctl KVM_CREATE_VM, HostMmap 0x20000000, HostOpen ''kernel'',
        HostStderr ''Inavlide HermitCore file!\<newline>'', HostCloseFile,
        HostIoctl (KVM_SET_USER_MEMORY_REGION
                     \<lparr>region_slot = 0, region_guest_phys_addr = 0, region_memory_size = 0x20000000\<rparr>),
        HostIoctl KVM_CREATE_IRQCHIP]"
proof -
  let ?h = "example_host bad_machine_image"
  let ?b = "before_load ?h initial_monitor"
  have opened: "open_file ?h ''kernel'' = Some bad_machine_image"
    by (simp add: example_host_def)
  have lk: "load_kernel ?h ''kernel'' ?b =
     (Returns 0, emit [HostOpen ''kernel'', HostStderr ''Inavlide HermitCore file!\<newline>'', HostCloseFile] ?b)"
    by (rule load_kernel_invalid [OF opened bad_machine_header(2)])
  have reach: "uhyve_init ?h ''kernel'' initial_monitor =
     and_then (load_kernel ?h ''kernel'' ?b) (\<lambda>ret m8.
       if ret \<noteq> 0 then (Exits EXIT_FAILURE, m8)
       else
         and_then (kvm_ioctl ?h
                     (KVM_SET_USER_MEMORY_REGION
                        \<lparr>region_slot = 0,
                         region_guest_phys_addr = GUEST_OFFSET,
                         region_memory_size = guest_size m8\<rparr>) m8) (\<lambda>_ m9.
         and_then (kvm_ioctl ?h KVM_CREATE_IRQCHIP m9) (\<lambda>_ m10.
           vcpu_init ?h 0 m10)))"
    by (rule uhyve_init_reaches_load)
      (simp_all add: example_host_answers KVM_32BIT_GAP_SIZE_def)
  have run: "uhyve_init ?h ''kernel'' initial_monitor =
     (Faults,
      emit [HostIoctl KVM_CREATE_IRQCHIP]
        (emit [HostIoctl (KVM_SET_USER_MEMORY_REGION
                     \<lparr>region_slot = 0, region_guest_phys_addr = 0, region_memory_size = 0x20000000\<rparr>)]
           (emit [HostOpen ''kernel'', HostStderr ''Inavlide HermitCore file!\<newline>'', HostCloseFile] ?b)))"
    unfolding reach lk
    by (simp add: kvm_ioctl_ok example_host_answers vcpu_init_def GUEST_OFFSET_def)
  have "e_machine (decode_ehdr (take 64 bad_machine_image)) = 3"
    by (simp add: decode_ehdr_def field_def bad_machine_image_def example_image_def example_ehdr_def)
  then show ?thesis
    unfolding run using lk
    by (simp add: example_host_answers EXIT_FAILURE_def)
qed

end
